theory Spec2Isabelle
  imports Main
begin

section \<open>The mail service: values, responses and the world it runs in\<close>

text \<open>
  The development embeds \<^verbatim>\<open>src/services/mailService.ts\<close>. A string of the
  source is a sequence of UTF-16 code units; it is modelled as the list of the bytes of
  its generalised UTF-8 encoding: a code point as in UTF-8, and a surrogate that has no
  partner as the three bytes \<open>ED\<close>, \<open>A0..BF\<close>, \<open>80..BF\<close>, a sequence that UTF-8 itself
  never contains. The values that
  \<^verbatim>\<open>Response.json()\<close> produces are untyped in the source (\<^verbatim>\<open>any\<close>); they are modelled
  by \<open>jsval\<close>, JSON values together with \<^verbatim>\<open>undefined\<close>, the value of a missing property.
  A number is carried as its canonical rendering \<^verbatim>\<open>String(n)\<close>: the service only tests
  numbers for truthiness and interpolates them into strings.
\<close>

datatype jsval =
    JUndefined
  | JNull
  | JBool bool
  | JNum string
  | JStr string
  | JArr "jsval list"
  | JObj "(string \<times> jsval) list"

text \<open>
  The errors a promise of the service can reject with. The first five are raised by the
  platform (a failed \<^verbatim>\<open>fetch\<close>, a body that cannot be read, a body that is not JSON, an
  operation on a value of the wrong kind, a string that cannot be percent-encoded);
  \<open>Blocked\<close> is line 23; the last five are the
  localized messages of lines 91, 126, 132 (which ends with the numeric status), 137 and 147.
\<close>

datatype js_error =
    FetchFailed
  | BodyUnreadable
  | SyntaxError
  | TypeError
  | URIError
  | Blocked
  | NoDomainsAvailable
  | UsernameUnavailable
  | CreationFailed nat
  | CreationExhausted
  | TokenFailed

datatype content = Unreadable | Malformed | Parsed jsval

record response =
  status :: nat
  content :: content

record request_init =
  req_method :: "string option"
  headers :: "(string \<times> string) list"
  payload :: "jsval option"   \<comment> \<open>the value handed to \<^verbatim>\<open>JSON.stringify\<close> for the body\<close>

datatype event = Fetch string request_init | Sleep nat

datatype fetch_outcome = Rejects | Resolves response

text \<open>
  The environment is what the service cannot control: the network (the outcome of a
  request may depend on everything that happened before it), the clock (its successive
  readings) and the random source (successive draws of \<^verbatim>\<open>Math.random()\<close>, each a natural
  number that \<open>random_floor\<close> reduces to an index below the bound).
  The world records what the service did: the requests and delays in order, and how many
  clock readings and random draws it consumed.
\<close>

record env =
  net :: "event list \<Rightarrow> string \<Rightarrow> request_init \<Rightarrow> fetch_outcome"
  clock :: "nat \<Rightarrow> int"
  random :: "nat \<Rightarrow> nat"

record world =
  trace :: "event list"
  ticks :: nat
  draws :: nat

type_synonym 'a io = "world \<Rightarrow> (js_error + 'a) \<times> world"

definition returnE :: "'a \<Rightarrow> 'a io" where
  "returnE x = (\<lambda>w. (Inr x, w))"

definition throwE :: "js_error \<Rightarrow> 'a io" where
  "throwE e = (\<lambda>w. (Inl e, w))"

definition liftE :: "js_error + 'a \<Rightarrow> 'a io" where
  "liftE r = (\<lambda>w. (r, w))"

definition bindE :: "'a io \<Rightarrow> ('a \<Rightarrow> 'b io) \<Rightarrow> 'b io" where
  "bindE m f = (\<lambda>w. case m w of (Inl e, w') \<Rightarrow> (Inl e, w') | (Inr x, w') \<Rightarrow> f x w')"

definition tryCatch :: "'a io \<Rightarrow> (js_error \<Rightarrow> 'a io) \<Rightarrow> 'a io" where
  "tryCatch m h = (\<lambda>w. case m w of (Inl e, w') \<Rightarrow> h e w' | (Inr x, w') \<Rightarrow> (Inr x, w'))"

subsection \<open>Platform operations\<close>

definition fetch :: "env \<Rightarrow> string \<Rightarrow> request_init \<Rightarrow> response io" where
  "fetch E url options = (\<lambda>w.
     ((case net E (trace w) url options of Rejects \<Rightarrow> Inl FetchFailed | Resolves r \<Rightarrow> Inr r),
      w\<lparr>trace := trace w @ [Fetch url options]\<rparr>))"

definition date_now :: "env \<Rightarrow> world \<Rightarrow> int \<times> world" where
  "date_now E w = (clock E (ticks w), w\<lparr>ticks := Suc (ticks w)\<rparr>)"

text \<open>\<^verbatim>\<open>Math.floor(Math.random() * n)\<close>: some index below \<open>n\<close>.\<close>

definition random_floor :: "env \<Rightarrow> nat \<Rightarrow> world \<Rightarrow> nat \<times> world" where
  "random_floor E n w = (random E (draws w) mod n, w\<lparr>draws := Suc (draws w)\<rparr>)"

text \<open>\<^verbatim>\<open>await new Promise(r => setTimeout(r, ms))\<close>\<close>

definition sleep :: "nat \<Rightarrow> world \<Rightarrow> world" where
  "sleep ms w = w\<lparr>trace := trace w @ [Sleep ms]\<rparr>"

definition ok :: "response \<Rightarrow> bool" where
  "ok r = (200 \<le> status r \<and> status r \<le> 299)"

definition json :: "response \<Rightarrow> js_error + jsval" where
  "json r = (case content r of Unreadable \<Rightarrow> Inl BodyUnreadable
                          | Malformed \<Rightarrow> Inl SyntaxError
                          | Parsed v \<Rightarrow> Inr v)"

text \<open>\<^verbatim>\<open>Response.text()\<close>; the service discards the text, so only its failure is kept.\<close>

definition text_of :: "response \<Rightarrow> js_error + unit" where
  "text_of r = (case content r of Unreadable \<Rightarrow> Inl BodyUnreadable | _ \<Rightarrow> Inr ())"

definition truthy :: "jsval \<Rightarrow> bool" where
  "truthy v = (case v of JUndefined \<Rightarrow> False | JNull \<Rightarrow> False | JBool b \<Rightarrow> b
                       | JNum n \<Rightarrow> n \<noteq> ''0'' | JStr s \<Rightarrow> s \<noteq> [] | _ \<Rightarrow> True)"

text \<open>
  Reading a property \<open>v.k\<close>, for the keys the service reads (none of them is defined on
  a prototype): a \<^verbatim>\<open>TypeError\<close> on \<^verbatim>\<open>null\<close> and \<^verbatim>\<open>undefined\<close>, the own property of an
  object, \<^verbatim>\<open>undefined\<close> otherwise.
\<close>

definition getp :: "jsval \<Rightarrow> string \<Rightarrow> js_error + jsval" where
  "getp v k = (case v of JUndefined \<Rightarrow> Inl TypeError | JNull \<Rightarrow> Inl TypeError
                 | JObj kvs \<Rightarrow> (case map_of kvs k of None \<Rightarrow> Inr JUndefined | Some x \<Rightarrow> Inr x)
                 | _ \<Rightarrow> Inr JUndefined)"

text \<open>
  \<^verbatim>\<open>String(v)\<close>, as a template literal and \<^verbatim>\<open>Array.prototype.join\<close> apply it. A parsed
  object renders as \<^verbatim>\<open>[object Object]\<close> unless it has an own \<^verbatim>\<open>toString\<close> property, which is
  then not callable and makes the conversion throw. \<open>join\<close> renders \<^verbatim>\<open>null\<close> and
  \<^verbatim>\<open>undefined\<close> elements as the empty string.
\<close>

fun sequenceE :: "(js_error + 'a) list \<Rightarrow> js_error + 'a list" where
  "sequenceE [] = Inr []"
| "sequenceE (r # rs) =
     (case r of Inl e \<Rightarrow> Inl e
      | Inr x \<Rightarrow> (case sequenceE rs of Inl e \<Rightarrow> Inl e | Inr xs \<Rightarrow> Inr (x # xs)))"

fun intersperse :: "string \<Rightarrow> string list \<Rightarrow> string" where
  "intersperse sep [] = []"
| "intersperse sep [x] = x"
| "intersperse sep (x # y # ys) = x @ sep @ intersperse sep (y # ys)"

fun to_string :: "jsval \<Rightarrow> js_error + string" where
  "to_string JUndefined = Inr ''undefined''"
| "to_string JNull = Inr ''null''"
| "to_string (JBool b) = Inr (if b then ''true'' else ''false'')"
| "to_string (JNum n) = Inr n"
| "to_string (JStr s) = Inr s"
| "to_string (JArr xs) =
     (case sequenceE (map (\<lambda>x. if x = JNull \<or> x = JUndefined then Inr [] else to_string x) xs) of
        Inl e \<Rightarrow> Inl e | Inr ss \<Rightarrow> Inr (intersperse '','' ss))"
| "to_string (JObj kvs) =
     (if ''toString'' \<in> fst ` set kvs then Inl TypeError else Inr ''[object Object]'')"

definition join :: "jsval list \<Rightarrow> string \<Rightarrow> js_error + string" where
  "join xs sep =
     (case sequenceE (map (\<lambda>x. if x = JNull \<or> x = JUndefined then Inr [] else to_string x) xs) of
        Inl e \<Rightarrow> Inl e | Inr ss \<Rightarrow> Inr (intersperse sep ss))"

text \<open>Decimal rendering of an integral number, as a template literal produces it.\<close>

fun show_nat :: "nat \<Rightarrow> string" where
  "show_nat n = (if n < 10 then [''0123456789'' ! n]
                 else show_nat (n div 10) @ [''0123456789'' ! (n mod 10)])"

definition show_int :: "int \<Rightarrow> string" where
  "show_int i = (if i < 0 then CHR ''-'' # show_nat (nat (- i)) else show_nat (nat i))"

text \<open>
  \<^verbatim>\<open>encodeURIComponent\<close> throws a \<^verbatim>\<open>URIError\<close> when the string holds a surrogate without
  partner. Otherwise letters, digits and \<^verbatim>\<open>- _ . ! ~ * ' ( )\<close> are kept, and every other
  byte of the UTF-8 encoding becomes \<^verbatim>\<open>%XX\<close> in upper-case hexadecimal.
\<close>

fun unpairedSurrogate :: "string \<Rightarrow> bool" where
  "unpairedSurrogate (a # b # cs) =
     ((of_char a = (0xED :: nat) \<and> (0xA0 :: nat) \<le> of_char b \<and> of_char b \<le> (0xBF :: nat))
      \<or> unpairedSurrogate (b # cs))"
| "unpairedSurrogate cs = False"

definition uriUnreserved :: string where
  "uriUnreserved =
     ''ABCDEFGHIJKLMNOPQRSTUVWXYZabcdefghijklmnopqrstuvwxyz0123456789-_.!~*()'' @ [CHR 0x27]"

definition hexDigit :: "nat \<Rightarrow> char" where
  "hexDigit n = ''0123456789ABCDEF'' ! (n mod 16)"

definition encodeByte :: "char \<Rightarrow> string" where
  "encodeByte c =
     (if c \<in> set uriUnreserved then [c]
      else [CHR ''%'', hexDigit (of_char c div 16), hexDigit (of_char c mod 16)])"

definition percentEncode :: "string \<Rightarrow> string" where
  "percentEncode s = concat (map encodeByte s)"

definition encodeURIComponent :: "string \<Rightarrow> js_error + string" where
  "encodeURIComponent s = (if unpairedSurrogate s then Inl URIError else Inr (percentEncode s))"

section \<open>The service\<close>

definition API_BASE :: string where
  "API_BASE = ''https://api.mail.tm''"

definition PROXY_BASE :: string where
  "PROXY_BASE = ''https://corsproxy.io/?''"

text \<open>Lines 7-14. The loop appends one character per round.\<close>

definition chars :: string where
  "chars = ''abcdefghijklmnopqrstuvwxyz0123456789''"

primrec randomLoop :: "env \<Rightarrow> nat \<Rightarrow> string \<Rightarrow> world \<Rightarrow> string \<times> world" where
  "randomLoop E 0 result w = (result, w)"
| "randomLoop E (Suc k) result w =
     (case random_floor E (length chars) w of
        (i, w') \<Rightarrow> randomLoop E k (result @ [chars ! i]) w')"

definition randomString :: "env \<Rightarrow> nat \<Rightarrow> world \<Rightarrow> string \<times> world" where
  "randomString E len w = randomLoop E len [] w"

text \<open>
  Lines 19-33. In the \<^verbatim>\<open>catch\<close> the address is encoded first, the clock is read next, and
  the second request is issued last; an error of the encoding leaves \<open>smartFetch\<close>.
\<close>

definition smartFetch :: "env \<Rightarrow> string \<Rightarrow> request_init \<Rightarrow> response io" where
  "smartFetch E url options =
     tryCatch
       (bindE (fetch E url options) (\<lambda>res.
          if status res = 403 \<or> status res = 429 then throwE Blocked else returnE res))
       (\<lambda>error.
          bindE (liftE (encodeURIComponent url)) (\<lambda>targetUrl w.
            case date_now E w of
              (t, w') \<Rightarrow> fetch E (PROXY_BASE @ targetUrl @ (''&_cb='' @ show_int t)) options w'))"

definition noOptions :: request_init where
  "noOptions = \<lparr>req_method = None, headers = [], payload = None\<rparr>"

text \<open>Lines 39-71. \<open>activeMembers\<close> is lines 46-49 (and 58-61),
  \<open>strategy2\<close> lines 54-66, which the source reaches from three places.\<close>

fun filterActive :: "jsval list \<Rightarrow> js_error + jsval list" where
  "filterActive [] = Inr []"
| "filterActive (d # ds) =
     (case getp d ''isActive'' of
        Inl e \<Rightarrow> Inl e
      | Inr a \<Rightarrow> (case filterActive ds of
                   Inl e \<Rightarrow> Inl e
                 | Inr r \<Rightarrow> Inr (if truthy a then d # r else r)))"

definition activeMembers :: "jsval \<Rightarrow> js_error + jsval list" where
  "activeMembers data =
     (case getp data ''hydra:member'' of
        Inl e \<Rightarrow> Inl e
      | Inr m \<Rightarrow> (case (if truthy m then m else JArr []) of
                   JArr domains \<Rightarrow> filterActive domains
                 | _ \<Rightarrow> Inl TypeError))"

definition urlA :: "int \<Rightarrow> string" where
  "urlA t = API_BASE @ ''/domains?page=1&itemsPerPage=100&_t='' @ show_int t"

definition urlB :: "int \<Rightarrow> string" where
  "urlB t = API_BASE @ ''/domains?_t='' @ show_int t"

definition strategy2 :: "env \<Rightarrow> jsval list io" where
  "strategy2 E = (\<lambda>w. case date_now E w of (t, w') \<Rightarrow>
     bindE (smartFetch E (urlB t) noOptions) (\<lambda>res2.
       if ok res2 then
         bindE (liftE (json res2)) (\<lambda>data.
         bindE (liftE (activeMembers data)) (\<lambda>domains. returnE domains))
       else returnE []) w')"

definition strategy1 :: "env \<Rightarrow> jsval list io" where
  "strategy1 E = (\<lambda>w. case date_now E w of (t, w') \<Rightarrow>
     bindE (smartFetch E (urlA t) noOptions) (\<lambda>res.
       if ok res then
         bindE (liftE (json res)) (\<lambda>data.
         bindE (liftE (activeMembers data)) (\<lambda>domains.
           if length domains > 0 then returnE domains else strategy2 E))
       else strategy2 E) w')"

definition getAvailableDomains :: "env \<Rightarrow> jsval list io" where
  "getAvailableDomains E = tryCatch (strategy1 E) (\<lambda>error. returnE [])"

text \<open>
  Lines 76-176. \<open>truthyStr\<close> is the truthiness of an optional string parameter
  (\<^verbatim>\<open>!domain\<close>, \<^verbatim>\<open>!!customUsername\<close>): absent and empty strings are falsy.
\<close>

record session =
  emailAddress :: string
  createdAt :: int
  expiresAt :: "int option"
  isPremium :: bool
  token :: jsval
  accountId :: jsval
  password :: string
  isMock :: bool

definition truthyStr :: "string option \<Rightarrow> bool" where
  "truthyStr s = (case s of None \<Rightarrow> False | Some x \<Rightarrow> x \<noteq> [])"

text \<open>Lines 83-88.\<close>

function domainLoop :: "env \<Rightarrow> nat \<Rightarrow> jsval list \<Rightarrow> jsval list io" where
  "domainLoop E k domains w =
     (if k < 3 then
        (case getAvailableDomains E w of
           (Inl e, w') \<Rightarrow> (Inl e, w')
         | (Inr domains', w') \<Rightarrow>
             if length domains' > 0 then (Inr domains', w')
             else domainLoop E (Suc k) domains' (sleep 500 w'))
      else (Inr domains, w))"
  by pat_completeness auto
termination
  by (relation "measure (\<lambda>(E, k, domains, w). 3 - k)") auto

declare domainLoop.simps [simp del]

text \<open>Lines 95-96. The index is below the length, which line 90 has found positive.\<close>

definition pickDomain :: "env \<Rightarrow> jsval list \<Rightarrow> jsval io" where
  "pickDomain E domains = (\<lambda>w.
     case random_floor E (length domains) w of
       (randomIndex, w') \<Rightarrow> (getp (domains ! randomIndex) ''domain'', w'))"

text \<open>Lines 78-97.\<close>

definition resolveDomain :: "env \<Rightarrow> string option \<Rightarrow> jsval io" where
  "resolveDomain E customDomain =
     (if \<not> truthyStr customDomain then
        bindE (domainLoop E 0 []) (\<lambda>domains.
          if length domains = 0 then throwE NoDomainsAvailable
          else pickDomain E domains)
      else returnE (JStr (the customDomain)))"

definition credentials :: "string \<Rightarrow> string \<Rightarrow> request_init" where
  "credentials address pw =
     \<lparr>req_method = Some ''POST'',
      headers = [(''Content-Type'', ''application/json'')],
      payload = Some (JObj [(''address'', JStr address), (''password'', JStr pw)])\<rparr>"

definition accountsUrl :: string where
  "accountsUrl = API_BASE @ ''/accounts''"

text \<open>
  Lines 107-134. The loop returns \<^verbatim>\<open>accountCreated\<close>, \<^verbatim>\<open>address\<close> and \<^verbatim>\<open>password\<close> as
  they stand when it is left.
\<close>

function createLoop ::
  "env \<Rightarrow> bool \<Rightarrow> string option \<Rightarrow> jsval \<Rightarrow> nat \<Rightarrow> nat \<Rightarrow> string \<Rightarrow> string
     \<Rightarrow> (bool \<times> string \<times> string) io" where
  "createLoop E isCustom customUsername domain maxRetries i address pw w =
     (if i < maxRetries then
        (case (if isCustom then (the customUsername, w) else randomString E 10 w) of
           (currentUsername, w1) \<Rightarrow>
        (case randomString E 12 w1 of
           (pw', w2) \<Rightarrow>
        (case to_string domain of
           Inl e \<Rightarrow> (Inl e, w2)
         | Inr d \<Rightarrow>
        (case smartFetch E accountsUrl (credentials (currentUsername @ ''@'' @ d) pw') w2 of
           (Inl e, w3) \<Rightarrow> (Inl e, w3)
         | (Inr createRes, w3) \<Rightarrow>
             if ok createRes then (Inr (True, currentUsername @ ''@'' @ d, pw'), w3)
             else if status createRes = 422 then
               (if isCustom then (Inl UsernameUnavailable, w3)
                else createLoop E isCustom customUsername domain maxRetries (Suc i)
                       (currentUsername @ ''@'' @ d) pw' w3)
             else (case text_of createRes of
                     Inl e \<Rightarrow> (Inl e, w3)
                   | Inr errText \<Rightarrow> (Inl (CreationFailed (status createRes)), w3))))))
      else (Inr (False, address, pw), w))"
  by pat_completeness auto
termination
  by (relation "measure (\<lambda>(E, isCustom, customUsername, domain, maxRetries, i, address, pw, w).
                          maxRetries - i)") auto

declare createLoop.simps [simp del]

definition bearer :: "string \<Rightarrow> request_init" where
  "bearer t = \<lparr>req_method = None, headers = [(''Authorization'', ''Bearer '' @ t)], payload = None\<rparr>"

text \<open>Lines 140-170.\<close>

definition login :: "env \<Rightarrow> bool \<Rightarrow> string \<Rightarrow> string \<Rightarrow> session io" where
  "login E isCustom address pw =
     bindE (smartFetch E (API_BASE @ ''/token'') (credentials address pw)) (\<lambda>tokenRes.
       if \<not> ok tokenRes then throwE TokenFailed
       else
         bindE (liftE (json tokenRes)) (\<lambda>tokenData.
         bindE (liftE (getp tokenData ''token'')) (\<lambda>tok.
         bindE (liftE (to_string tok)) (\<lambda>t.
         bindE (smartFetch E (API_BASE @ ''/me'') (bearer t)) (\<lambda>meRes.
         bindE (liftE (json meRes)) (\<lambda>meData.
         (\<lambda>w. case date_now E w of (now, w') \<Rightarrow>
            (case getp meData ''id'' of
               Inl e \<Rightarrow> (Inl e, w')
             | Inr ident \<Rightarrow>
                 (Inr \<lparr>emailAddress = address,
                       createdAt = now,
                       expiresAt = (if isCustom then None else Some (now + 10 * 60 * 1000)),
                       isPremium = isCustom,
                       token = tok,
                       accountId = ident,
                       password = pw,
                       isMock = False\<rparr>, w')))))))))"

text \<open>Lines 99-170: what the function does once \<^verbatim>\<open>domain\<close> is set.\<close>

definition provision :: "env \<Rightarrow> string option \<Rightarrow> jsval \<Rightarrow> session io" where
  "provision E customUsername domain =
     bindE (createLoop E (truthyStr customUsername) customUsername domain
              (if truthyStr customUsername then 1 else 5) 0 [] []) (\<lambda>(accountCreated, address, pw).
       if \<not> accountCreated then throwE CreationExhausted
       else login E (truthyStr customUsername) address pw)"

definition createRealAccount :: "env \<Rightarrow> string option \<Rightarrow> string option \<Rightarrow> session io" where
  "createRealAccount E customUsername customDomain =
     tryCatch
       (bindE (resolveDomain E customDomain) (\<lambda>domain. provision E customUsername domain))
       (\<lambda>error. throwE error)"

text \<open>Lines 210-233.\<close>

record details =
  body :: jsval
  hasFullDetails :: bool

definition bodyContent :: "jsval \<Rightarrow> js_error + jsval" where
  "bodyContent data =
     (case getp data ''html'' of
        Inl e \<Rightarrow> Inl e
      | Inr html \<Rightarrow>
          (case html of
             JArr (x # xs) \<Rightarrow>
               (case join (x # xs) [] of Inl e \<Rightarrow> Inl e | Inr s \<Rightarrow> Inr (JStr s))
           | JStr (c # cs) \<Rightarrow> Inr (JStr (c # cs))
           | _ \<Rightarrow>
               (case getp data ''text'' of
                  Inl e \<Rightarrow> Inl e
                | Inr t \<Rightarrow> Inr (if truthy t then t else JStr ''No content''))))"

definition fetchMessageDetails :: "env \<Rightarrow> string \<Rightarrow> string \<Rightarrow> details option io" where
  "fetchMessageDetails E tok messageId =
     tryCatch
       (bindE (smartFetch E (API_BASE @ ''/messages/'' @ messageId) (bearer tok)) (\<lambda>res.
        bindE (liftE (json res)) (\<lambda>data.
        bindE (liftE (bodyContent data)) (\<lambda>b.
          returnE (Some \<lparr>body = b, hasFullDetails = True\<rparr>)))))
       (\<lambda>error. returnE None)"

text \<open>Lines 235-245.\<close>

definition deleteOptions :: "string \<Rightarrow> request_init" where
  "deleteOptions t =
     \<lparr>req_method = Some ''DELETE'', headers = [(''Authorization'', ''Bearer '' @ t)], payload = None\<rparr>"

definition deleteMessage :: "env \<Rightarrow> string \<Rightarrow> string \<Rightarrow> bool io" where
  "deleteMessage E tok messageId =
     tryCatch
       (bindE (smartFetch E (API_BASE @ ''/messages/'' @ messageId) (deleteOptions tok)) (\<lambda>res.
          returnE True))
       (\<lambda>error. returnE False)"

section \<open>Observing a run\<close>

text \<open>
  \<open>issued m w\<close> is what the computation \<open>m\<close>, started in the world \<open>w\<close>, adds to the
  trace. \<open>emits m P\<close> says that from every world \<open>m\<close> only appends to the trace, and that
  what it appends satisfies \<open>P\<close>.
\<close>

definition issued :: "'a io \<Rightarrow> world \<Rightarrow> event list" where
  "issued m w = drop (length (trace w)) (trace (snd (m w)))"

definition emits :: "'a io \<Rightarrow> (event list \<Rightarrow> bool) \<Rightarrow> bool" where
  "emits m P = (\<forall>w. \<exists>evs. trace (snd (m w)) = trace w @ evs \<and> P evs)"

text \<open>
  The address of the proxied request for a well-formed address and a clock reading (lines
  27-30); whether a direct attempt counts as failed (line 22 and the \<^verbatim>\<open>catch\<close> of line
  26); and what a settled \<^verbatim>\<open>fetch\<close> promise gives its caller.
\<close>

definition proxyUrl :: "string \<Rightarrow> int \<Rightarrow> string" where
  "proxyUrl url t = PROXY_BASE @ percentEncode url @ (''&_cb='' @ show_int t)"

definition failedDirect :: "fetch_outcome \<Rightarrow> bool" where
  "failedDirect out =
     (case out of Rejects \<Rightarrow> True | Resolves r \<Rightarrow> status r = 403 \<or> status r = 429)"

definition settle :: "fetch_outcome \<Rightarrow> js_error + response" where
  "settle out = (case out of Rejects \<Rightarrow> Inl FetchFailed | Resolves r \<Rightarrow> Inr r)"

text \<open>
  Counting. An account-creation request is a direct request to the accounts address:
  \<open>smartFetch\<close> issues exactly one for each call on that address, so these count the
  creation attempts, whether or not an attempt is repeated through the proxy. A discovery
  is a direct request of the first catalog query, one for each call of
  \<open>getAvailableDomains\<close>. The delays are the durations slept, in order.
\<close>

definition isAccountRequest :: "event \<Rightarrow> bool" where
  "isAccountRequest e = (case e of Fetch url options \<Rightarrow> url = accountsUrl | Sleep ms \<Rightarrow> False)"

definition accountRequests :: "event list \<Rightarrow> nat" where
  "accountRequests evs = length (filter isAccountRequest evs)"

definition discoveryPrefix :: string where
  "discoveryPrefix = API_BASE @ ''/domains?page=1''"

definition isDiscovery :: "event \<Rightarrow> bool" where
  "isDiscovery e =
     (case e of Fetch url options \<Rightarrow> take (length discoveryPrefix) url = discoveryPrefix
              | Sleep ms \<Rightarrow> False)"

definition discoveries :: "event list \<Rightarrow> nat" where
  "discoveries evs = length (filter isDiscovery evs)"

definition delays :: "event list \<Rightarrow> nat list" where
  "delays evs = concat (map (\<lambda>e. case e of Fetch url options \<Rightarrow> [] | Sleep ms \<Rightarrow> [ms]) evs)"

text \<open>Summaries of what the parts of the service may append.\<close>

definition quiet :: "event list \<Rightarrow> bool" where
  "quiet evs = (accountRequests evs = 0 \<and> discoveries evs = 0 \<and> delays evs = [])"

definition oneDiscovery :: "event list \<Rightarrow> bool" where
  "oneDiscovery evs = (accountRequests evs = 0 \<and> discoveries evs = 1 \<and> delays evs = [])"

definition discoveryBudget :: "nat \<Rightarrow> event list \<Rightarrow> bool" where
  "discoveryBudget n evs =
     (accountRequests evs = 0 \<and> discoveries evs \<le> n \<and> length (delays evs) \<le> n
      \<and> set (delays evs) \<subseteq> {500})"

definition creationBudget :: "nat \<Rightarrow> event list \<Rightarrow> bool" where
  "creationBudget n evs = (accountRequests evs \<le> n \<and> discoveries evs = 0 \<and> delays evs = [])"

definition callBudget :: "nat \<Rightarrow> event list \<Rightarrow> bool" where
  "callBudget n evs =
     (accountRequests evs \<le> n \<and> discoveries evs \<le> 3 \<and> length (delays evs) \<le> 3
      \<and> set (delays evs) \<subseteq> {500})"

text \<open>An entry of the catalog counts as active when its \<^verbatim>\<open>isActive\<close> field is truthy (line 49).\<close>

definition isActive :: "jsval \<Rightarrow> bool" where
  "isActive d = (case getp d ''isActive'' of Inl e \<Rightarrow> False | Inr a \<Rightarrow> truthy a)"

text \<open>
  An \<^verbatim>\<open>html\<close> field that the detail fetch uses: a non-empty array or a non-empty string
  (lines 218 and 220).
\<close>

definition usableHtml :: "jsval \<Rightarrow> bool" where
  "usableHtml h = (case h of JArr (x # xs) \<Rightarrow> True | JStr (c # cs) \<Rightarrow> True | _ \<Rightarrow> False)"

text \<open>
  One round of the creation loop up to its request (lines 108-116): the address, the
  password and the response. \<open>after422 E cu d k w\<close> is the world that \<open>k\<close> successive rounds
  in random mode leave when started in \<open>w\<close>, provided each of them was answered 422.
\<close>

definition attempt :: "env \<Rightarrow> bool \<Rightarrow> string option \<Rightarrow> jsval \<Rightarrow> (string \<times> string \<times> response) io" where
  "attempt E isCustom customUsername domain w =
     (case (if isCustom then (the customUsername, w) else randomString E 10 w) of
        (currentUsername, w1) \<Rightarrow>
     (case randomString E 12 w1 of
        (pw, w2) \<Rightarrow>
     (case to_string domain of
        Inl e \<Rightarrow> (Inl e, w2)
      | Inr d \<Rightarrow>
     (case smartFetch E accountsUrl (credentials (currentUsername @ ''@'' @ d) pw) w2 of
        (Inl e, w3) \<Rightarrow> (Inl e, w3)
      | (Inr createRes, w3) \<Rightarrow> (Inr (currentUsername @ ''@'' @ d, pw, createRes), w3)))))"

primrec after422 :: "env \<Rightarrow> string option \<Rightarrow> jsval \<Rightarrow> nat \<Rightarrow> world \<Rightarrow> world option" where
  "after422 E cu d 0 w = Some w"
| "after422 E cu d (Suc k) w =
     (case attempt E False cu d w of
        (Inl e, w') \<Rightarrow> None
      | (Inr (a, p, r), w') \<Rightarrow> if status r = 422 then after422 E cu d k w' else None)"

section \<open>Example worlds and networks\<close>

text \<open>
  The empty world; a network that gives every request the same outcome; and a network
  that plays a script, the \<open>n\<close>-th request getting the \<open>n\<close>-th outcome and every later
  one being rejected.
\<close>

definition w0 :: world where
  "w0 = \<lparr>trace = [], ticks = 0, draws = 0\<rparr>"

definition always :: "fetch_outcome \<Rightarrow> env" where
  "always out = \<lparr>net = (\<lambda>tr url options. out), clock = (\<lambda>k. 1000 + int k), random = (\<lambda>k. 7 * k)\<rparr>"

fun requests :: "event list \<Rightarrow> nat" where
  "requests [] = 0"
| "requests (Fetch url options # evs) = Suc (requests evs)"
| "requests (Sleep ms # evs) = requests evs"

definition script :: "fetch_outcome list \<Rightarrow> env" where
  "script outs =
     \<lparr>net = (\<lambda>tr url options. if requests tr < length outs then outs ! requests tr else Rejects),
      clock = (\<lambda>k. 1000 + int k), random = (\<lambda>k. 7 * k)\<rparr>"

definition reply :: "nat \<Rightarrow> content \<Rightarrow> fetch_outcome" where
  "reply st c = Resolves \<lparr>status = st, content = c\<rparr>"

text \<open>
  A catalog with one active and one inactive domain; a network whose catalog is empty
  for the first two discoveries and lists a domain at the third; a network that accepts
  the account, hands out a token and answers the account-info request as given; the
  body of an error response; a message with two fragments of markup and a text.
\<close>

definition domA :: jsval where
  "domA = JObj [(''domain'', JStr ''a.com''), (''isActive'', JBool True), (''isPrivate'', JBool False)]"

definition domB :: jsval where
  "domB = JObj [(''domain'', JStr ''b.com''), (''isActive'', JBool False), (''isPrivate'', JBool False)]"

definition catalog :: "jsval list \<Rightarrow> content" where
  "catalog ds = Parsed (JObj [(''hydra:member'', JArr ds)])"

definition emptyCatalog :: fetch_outcome where
  "emptyCatalog = reply 200 (catalog [])"

definition thirdTime :: env where
  "thirdTime = script [emptyCatalog, emptyCatalog, emptyCatalog, emptyCatalog,
                       reply 200 (catalog [domA, domB])]"

definition threeReplies :: "nat \<Rightarrow> content \<Rightarrow> env" where
  "threeReplies st c =
     script [reply 201 (Parsed (JObj [])),
             reply 200 (Parsed (JObj [(''token'', JStr ''t0k'')])),
             reply st c]"

definition notFound :: content where
  "notFound = Parsed (JObj [(''message'', JStr ''Not Found'')])"

definition mail :: content where
  "mail = Parsed (JObj [(''html'', JArr [JStr ''<p>'', JStr ''hi'']), (''text'', JStr ''hi'')])"

section \<open>Basic facts\<close>

subsection \<open>Sequencing, throwing and catching\<close>

lemma bindE_cases:
  assumes "bindE m f w = (r, w')"
  obtains (throws) e where "m w = (Inl e, w')" "r = Inl e"
        | (returns) x w1 where "m w = (Inr x, w1)" "f x w1 = (r, w')"
  using assms by (auto simp add: bindE_def split: prod.splits sum.splits)

lemma liftE_eq [simp]: "liftE v w = (r, w') \<longleftrightarrow> v = r \<and> w' = w"
  by (auto simp add: liftE_def)

lemma returnE_eq [simp]: "returnE x w = (r, w') \<longleftrightarrow> r = Inr x \<and> w' = w"
  by (auto simp add: returnE_def)

lemma throwE_eq [simp]: "throwE e w = (r, w') \<longleftrightarrow> r = Inl e \<and> w' = w"
  by (auto simp add: throwE_def)

lemma rethrow [simp]: "tryCatch m (\<lambda>error. throwE error) = m"
  by (rule ext) (simp add: tryCatch_def throwE_def split: prod.splits sum.splits)

subsection \<open>What a computation appends to the trace\<close>

lemma emitsI:
  assumes "\<And>w r w'. m w = (r, w') \<Longrightarrow> \<exists>evs. trace w' = trace w @ evs \<and> P evs"
  shows "emits m P"
  unfolding emits_def
proof
  fix w
  obtain r w' where "m w = (r, w')" by (cases "m w")
  with assms show "\<exists>evs. trace (snd (m w)) = trace w @ evs \<and> P evs" by fastforce
qed

lemma emitsE:
  assumes "emits m P" "m w = (r, w')"
  obtains evs where "trace w' = trace w @ evs" "P evs"
  using assms unfolding emits_def by (metis snd_conv)

lemma emits_run:
  "emits m P \<Longrightarrow> m w = (r, w') \<Longrightarrow> \<exists>evs. trace w' = trace w @ evs \<and> P evs"
  by (erule emitsE) auto

lemma emits_issued: "emits m P \<Longrightarrow> P (issued m w)"
  unfolding emits_def issued_def by (metis append_eq_conv_conj)

lemma emits_weaken: "emits m P \<Longrightarrow> (\<And>evs. P evs \<Longrightarrow> Q evs) \<Longrightarrow> emits m Q"
  unfolding emits_def by blast

lemma emits_returnE: "P [] \<Longrightarrow> emits (returnE x) P"
  by (simp add: emits_def returnE_def)

lemma emits_throwE: "P [] \<Longrightarrow> emits (throwE e) P"
  by (simp add: emits_def throwE_def)

lemma emits_liftE: "P [] \<Longrightarrow> emits (liftE v) P"
  by (simp add: emits_def liftE_def)

lemma emits_bindE:
  assumes m: "emits m P" and f: "\<And>x. emits (f x) Q"
    and stop: "\<And>a. P a \<Longrightarrow> R a" and both: "\<And>a b. P a \<Longrightarrow> Q b \<Longrightarrow> R (a @ b)"
  shows "emits (bindE m f) R"
proof (rule emitsI)
  fix w r w'
  assume run: "bindE m f w = (r, w')"
  then show "\<exists>evs. trace w' = trace w @ evs \<and> R evs"
  proof (cases rule: bindE_cases)
    case (throws e)
    with m obtain a where "trace w' = trace w @ a" "P a" by (auto elim: emitsE)
    with stop show ?thesis by blast
  next
    case (returns x w1)
    from m returns(1) obtain a where a: "trace w1 = trace w @ a" "P a" by (auto elim: emitsE)
    from f returns(2) obtain b where b: "trace w' = trace w1 @ b" "Q b" by (auto elim: emitsE)
    from a b both have "trace w' = trace w @ (a @ b)" "R (a @ b)" by simp_all
    then show ?thesis by blast
  qed
qed

lemma emits_tryCatch:
  assumes m: "emits m P" and h: "\<And>e. emits (h e) Q"
    and stop: "\<And>a. P a \<Longrightarrow> R a" and both: "\<And>a b. P a \<Longrightarrow> Q b \<Longrightarrow> R (a @ b)"
  shows "emits (tryCatch m h) R"
proof (rule emitsI)
  fix w r w'
  assume run: "tryCatch m h w = (r, w')"
  obtain r1 w1 where m1: "m w = (r1, w1)" by (cases "m w")
  from m m1 obtain a where a: "trace w1 = trace w @ a" "P a" by (auto elim: emitsE)
  show "\<exists>evs. trace w' = trace w @ evs \<and> R evs"
  proof (cases r1)
    case (Inl e)
    with run m1 have "h e w1 = (r, w')" by (simp add: tryCatch_def)
    with h obtain b where b: "trace w' = trace w1 @ b" "Q b" by (auto elim: emitsE)
    from a b both have "trace w' = trace w @ (a @ b)" "R (a @ b)" by simp_all
    then show ?thesis by blast
  next
    case (Inr x)
    with run m1 have "w' = w1" by (simp add: tryCatch_def)
    with a stop show ?thesis by blast
  qed
qed

lemma emits_date_now:
  assumes "\<And>t. emits (f t) P"
  shows "emits (\<lambda>w. case date_now E w of (t, w') \<Rightarrow> f t w') P"
proof (rule emitsI)
  fix w r w'
  assume "(case date_now E w of (t, w') \<Rightarrow> f t w') = (r, w')"
  then have "f (clock E (ticks w)) (w\<lparr>ticks := Suc (ticks w)\<rparr>) = (r, w')"
    by (simp add: date_now_def)
  then obtain evs where "trace w' = trace (w\<lparr>ticks := Suc (ticks w)\<rparr>) @ evs" "P evs"
    using assms emitsE by metis
  then show "\<exists>evs. trace w' = trace w @ evs \<and> P evs" by auto
qed

lemma issued_eq: "m w = (r, w') \<Longrightarrow> trace w' = trace w @ evs \<Longrightarrow> issued m w = evs"
  by (simp add: issued_def)

lemma trace_sleep [simp]: "trace (sleep ms w) = trace w @ [Sleep ms]"
  by (simp add: sleep_def)

lemma trace_randomLoop [simp]: "trace (snd (randomLoop E n acc w)) = trace w"
  by (induction n arbitrary: acc w) (simp_all add: random_floor_def)

lemma trace_randomString [simp]: "trace (snd (randomString E n w)) = trace w"
  by (simp add: randomString_def)

lemma requests_append [simp]: "requests (a @ b) = requests a + requests b"
  by (induction a rule: requests.induct) simp_all

subsection \<open>Counting requests and delays\<close>

lemma accountRequests_simps [simp]:
  "accountRequests [] = 0"
  "accountRequests (a @ b) = accountRequests a + accountRequests b"
  "accountRequests (Fetch url options # evs) = (if url = accountsUrl then 1 else 0) + accountRequests evs"
  "accountRequests (Sleep ms # evs) = accountRequests evs"
  by (simp_all add: accountRequests_def isAccountRequest_def)

lemma discoveries_simps [simp]:
  "discoveries [] = 0"
  "discoveries (a @ b) = discoveries a + discoveries b"
  "discoveries (e # evs) = (if isDiscovery e then 1 else 0) + discoveries evs"
  by (simp_all add: discoveries_def)

lemma delays_simps [simp]:
  "delays [] = []"
  "delays (a @ b) = delays a @ delays b"
  "delays (Fetch url options # evs) = delays evs"
  "delays (Sleep ms # evs) = ms # delays evs"
  by (simp_all add: delays_def)

lemma quiet_simps [simp]:
  "quiet []"
  "quiet a \<Longrightarrow> quiet b \<Longrightarrow> quiet (a @ b)"
  by (simp_all add: quiet_def)

lemma proxyUrl_not_accounts [simp]: "proxyUrl url t \<noteq> accountsUrl"
  by (simp add: proxyUrl_def accountsUrl_def PROXY_BASE_def API_BASE_def)

lemma proxyUrl_not_discovery [simp]: "\<not> isDiscovery (Fetch (proxyUrl url t) options)"
  by (simp add: isDiscovery_def discoveryPrefix_def proxyUrl_def PROXY_BASE_def API_BASE_def)

lemma sleep_not_discovery [simp]: "\<not> isDiscovery (Sleep ms)"
  by (simp add: isDiscovery_def)

lemma urlA_discovery [simp]: "isDiscovery (Fetch (urlA t) options)"
  by (simp add: isDiscovery_def discoveryPrefix_def urlA_def API_BASE_def)

lemma urlB_not_discovery [simp]: "\<not> isDiscovery (Fetch (urlB t) options)"
  by (simp add: isDiscovery_def discoveryPrefix_def urlB_def API_BASE_def)

lemma other_urls [simp]:
  "urlA t \<noteq> accountsUrl" "urlB t \<noteq> accountsUrl"
  "API_BASE @ ''/token'' \<noteq> accountsUrl" "API_BASE @ ''/me'' \<noteq> accountsUrl"
  "\<not> isDiscovery (Fetch accountsUrl options)"
  "\<not> isDiscovery (Fetch (API_BASE @ ''/token'') options)"
  "\<not> isDiscovery (Fetch (API_BASE @ ''/me'') options)"
  by (simp_all add: urlA_def urlB_def accountsUrl_def API_BASE_def isDiscovery_def discoveryPrefix_def)

section \<open>Resilient fetch\<close>

lemma smartFetch_run:
  "smartFetch E url options w =
     (if failedDirect (net E (trace w) url options) then
        (if unpairedSurrogate url then (Inl URIError, w\<lparr>trace := trace w @ [Fetch url options]\<rparr>)
         else
           (settle (net E (trace w @ [Fetch url options]) (proxyUrl url (clock E (ticks w))) options),
            w\<lparr>trace := trace w @ [Fetch url options, Fetch (proxyUrl url (clock E (ticks w))) options],
              ticks := Suc (ticks w)\<rparr>))
      else (settle (net E (trace w) url options), w\<lparr>trace := trace w @ [Fetch url options]\<rparr>))"
  by (simp add: smartFetch_def tryCatch_def bindE_def fetch_def throwE_def returnE_def liftE_def
      encodeURIComponent_def proxyUrl_def date_now_def failedDirect_def settle_def
      split: fetch_outcome.splits)

lemma emits_smartFetch:
  "emits (smartFetch E url options)
     (\<lambda>evs. evs = [Fetch url options] \<or> (\<exists>t. evs = [Fetch url options, Fetch (proxyUrl url t) options]))"
proof (rule emitsI)
  fix w r w'
  assume "smartFetch E url options w = (r, w')"
  then show "\<exists>evs. trace w' = trace w @ evs
      \<and> (evs = [Fetch url options] \<or> (\<exists>t. evs = [Fetch url options, Fetch (proxyUrl url t) options]))"
    by (auto simp add: smartFetch_run split: if_splits)
qed

lemma emits_smartFetch_tally:
  "emits (smartFetch E url options)
     (\<lambda>evs. accountRequests evs = (if url = accountsUrl then 1 else 0)
          \<and> discoveries evs = (if isDiscovery (Fetch url options) then 1 else 0)
          \<and> delays evs = [])"
  by (rule emits_weaken [OF emits_smartFetch]) auto

lemma emits_smartFetch_quiet:
  "url \<noteq> accountsUrl \<Longrightarrow> \<not> isDiscovery (Fetch url options) \<Longrightarrow> emits (smartFetch E url options) quiet"
  by (rule emits_weaken [OF emits_smartFetch_tally]) (simp add: quiet_def)

lemma smartFetch_always:
  "st \<noteq> 403 \<Longrightarrow> st \<noteq> 429 \<Longrightarrow>
   smartFetch (always (reply st c)) url options w =
     (Inr \<lparr>status = st, content = c\<rparr>, w\<lparr>trace := trace w @ [Fetch url options]\<rparr>)"
  using smartFetch_run [of "always (reply st c)" url options w]
  by (simp add: always_def reply_def failedDirect_def settle_def)

lemma smartFetch_script:
  assumes "requests (trace w) = k" and "k < length outs" and "outs ! k = Resolves r"
    and "status r \<noteq> 403" and "status r \<noteq> 429"
  shows "smartFetch (script outs) url options w = (Inr r, w\<lparr>trace := trace w @ [Fetch url options]\<rparr>)"
  using assms smartFetch_run [of "script outs" url options w]
  by (simp add: script_def failedDirect_def settle_def)

text \<open>
  C3, as amended. \<open>smartFetch\<close> first issues the request as given. If that attempt
  rejects, or answers 403 or 429, and the address is well-formed (it holds no surrogate
  without partner), it issues exactly one more request, with the same options, to the
  proxy address made of the proxy base, the percent-encoded original address and the
  parameter \<^verbatim>\<open>&_cb=\<close> with the clock reading, and whatever that second request gives (a
  response of any status, or a rejection) is the result. Otherwise the direct response is
  the result and no second request is issued. So, for a well-formed address, the call
  fails only when both attempts fail. (For an address that is not well-formed the
  encoding throws, and its error is the result of the fallback.)
\<close>

theorem smartFetch_single_fallback:
  "smartFetch E url options w =
     (if failedDirect (net E (trace w) url options) then
        (case encodeURIComponent url of
           Inl e \<Rightarrow> (Inl e, w\<lparr>trace := trace w @ [Fetch url options]\<rparr>)
         | Inr targetUrl \<Rightarrow>
             (settle (net E (trace w @ [Fetch url options])
                        (PROXY_BASE @ targetUrl @ ''&_cb='' @ show_int (clock E (ticks w)))
                        options),
              w\<lparr>trace := trace w @ [Fetch url options,
                     Fetch (PROXY_BASE @ targetUrl @ ''&_cb='' @ show_int (clock E (ticks w)))
                       options],
                ticks := Suc (ticks w)\<rparr>))
      else (settle (net E (trace w) url options), w\<lparr>trace := trace w @ [Fetch url options]\<rparr>))
   \<and> (\<not> unpairedSurrogate url \<longrightarrow>
        encodeURIComponent url = Inr (percentEncode url)
        \<and> (\<forall>e. fst (smartFetch E url options w) = Inl e \<longrightarrow>
              failedDirect (net E (trace w) url options) \<and>
              net E (trace w @ [Fetch url options])
                (PROXY_BASE @ percentEncode url @ ''&_cb='' @ show_int (clock E (ticks w)))
                options = Rejects))"
  using smartFetch_run [of E url options w]
  by (auto simp add: proxyUrl_def settle_def failedDirect_def encodeURIComponent_def
      split: fetch_outcome.splits if_splits)

text \<open>A network that is down, and the address \<^verbatim>\<open>a/b\<close>: two requests, the second to the proxy.\<close>

theorem smartFetch_single_fallback_witness:
  "\<not> unpairedSurrogate ''a/b''
   \<and> fst (smartFetch (always Rejects) ''a/b'' noOptions w0) = Inl FetchFailed
   \<and> failedDirect (net (always Rejects) (trace w0) ''a/b'' noOptions)
   \<and> trace (snd (smartFetch (always Rejects) ''a/b'' noOptions w0)) =
       [Fetch ''a/b'' noOptions, Fetch ''https://corsproxy.io/?a%2Fb&_cb=1000'' noOptions]"
  using smartFetch_single_fallback [of "always Rejects" "''a/b''" noOptions w0]
  by (simp add: always_def w0_def failedDirect_def settle_def PROXY_BASE_def
      encodeURIComponent_def percentEncode_def encodeByte_def uriUnreserved_def hexDigit_def
      show_int_def)

text \<open>
  The claim as stated fails for an address that holds a surrogate without partner (here
  the letter \<^verbatim>\<open>m\<close> followed by the code unit \<^verbatim>\<open>D800\<close>): the direct attempt is answered 403,
  the encoding throws, no second request is issued and the call fails.
\<close>

theorem unpaired_surrogate_counterexample:
  "failedDirect (net (always (reply 403 (Parsed (JObj [])))) (trace w0)
      [CHR ''m'', CHR 0xED, CHR 0xA0, CHR 0x80] noOptions)
   \<and> fst (smartFetch (always (reply 403 (Parsed (JObj [])))) [CHR ''m'', CHR 0xED, CHR 0xA0, CHR 0x80]
        noOptions w0) = Inl URIError
   \<and> trace (snd (smartFetch (always (reply 403 (Parsed (JObj [])))) [CHR ''m'', CHR 0xED, CHR 0xA0, CHR 0x80]
        noOptions w0)) = [Fetch [CHR ''m'', CHR 0xED, CHR 0xA0, CHR 0x80] noOptions]"
  by (simp add: smartFetch_run always_def reply_def w0_def failedDirect_def)

section \<open>Domain discovery\<close>

lemma filterActive_sound:
  "filterActive xs = Inr r \<Longrightarrow> d \<in> set r \<Longrightarrow> isActive d"
proof (induction xs arbitrary: r)
  case Nil
  then show ?case by simp
next
  case (Cons x xs)
  then show ?case
    by (auto simp add: isActive_def split: sum.splits if_splits)
qed

lemma activeMembers_sound:
  "activeMembers data = Inr r \<Longrightarrow> d \<in> set r \<Longrightarrow> isActive d"
  by (auto simp add: activeMembers_def split: sum.splits jsval.splits if_splits
      dest: filterActive_sound)

lemma strategy2_sound:
  assumes "strategy2 E w = (Inr r, w')" "d \<in> set r"
  shows "isActive d"
proof -
  obtain t w1 where dn: "date_now E w = (t, w1)" by (cases "date_now E w")
  from assms(1) dn have
    "bindE (smartFetch E (urlB t) noOptions) (\<lambda>res2.
       if ok res2 then
         bindE (liftE (json res2)) (\<lambda>data.
         bindE (liftE (activeMembers data)) (\<lambda>domains. returnE domains))
       else returnE []) w1 = (Inr r, w')"
    by (simp add: strategy2_def)
  then show ?thesis using assms(2)
    by (auto elim!: bindE_cases split: if_splits) (metis activeMembers_sound)
qed

lemma strategy1_sound:
  assumes "strategy1 E w = (Inr r, w')" "d \<in> set r"
  shows "isActive d"
proof -
  obtain t w1 where dn: "date_now E w = (t, w1)" by (cases "date_now E w")
  from assms(1) dn have
    "bindE (smartFetch E (urlA t) noOptions) (\<lambda>res.
       if ok res then
         bindE (liftE (json res)) (\<lambda>data.
         bindE (liftE (activeMembers data)) (\<lambda>domains.
           if length domains > 0 then returnE domains else strategy2 E))
       else strategy2 E) w1 = (Inr r, w')"
    by (simp add: strategy1_def)
  then show ?thesis using assms(2)
    by (auto elim!: bindE_cases split: if_splits) (metis activeMembers_sound strategy2_sound)+
qed

lemma getAvailableDomains_total:
  "\<exists>ds w'. getAvailableDomains E w = (Inr ds, w')"
  by (auto simp add: getAvailableDomains_def tryCatch_def returnE_def split: prod.splits sum.splits)

lemma emits_strategy2: "emits (strategy2 E) quiet"
  unfolding strategy2_def
  apply (rule emits_date_now)
  apply (rule emits_bindE [where P = quiet and Q = quiet])
     apply (rule emits_smartFetch_quiet; simp)
    apply (auto intro!: emits_returnE emits_bindE [where P = quiet and Q = quiet] emits_liftE)
  done

lemma emits_strategy1: "emits (strategy1 E) oneDiscovery"
  unfolding strategy1_def
  apply (rule emits_date_now)
  apply (rule emits_bindE [where P = oneDiscovery and Q = quiet])
     apply (rule emits_weaken [OF emits_smartFetch_tally])
     apply (simp add: oneDiscovery_def)
    apply (auto intro!: emits_returnE emits_bindE [where P = quiet and Q = quiet] emits_liftE
      emits_strategy2 simp add: oneDiscovery_def quiet_def)
  done

lemma emits_getAvailableDomains: "emits (getAvailableDomains E) oneDiscovery"
  unfolding getAvailableDomains_def
  by (rule emits_tryCatch [where P = oneDiscovery and Q = quiet])
    (auto intro!: emits_strategy1 emits_returnE simp add: oneDiscovery_def quiet_def)

lemma getAvailableDomains_offline:
  "\<exists>w'. getAvailableDomains (always Rejects) w = (Inr [], w')"
  using smartFetch_run [of "always Rejects" "urlA (clock (always Rejects) (ticks w))" noOptions
      "w\<lparr>ticks := Suc (ticks w)\<rparr>"]
  by (simp add: getAvailableDomains_def strategy1_def tryCatch_def bindE_def date_now_def
      returnE_def failedDirect_def settle_def always_def)

lemma getAvailableDomains_refused:
  "\<exists>w'. getAvailableDomains (always (reply 422 c)) w = (Inr [], w')"
  by (simp add: getAvailableDomains_def strategy1_def strategy2_def tryCatch_def bindE_def
      date_now_def returnE_def smartFetch_always ok_def)

lemmas run_defs =
  getAvailableDomains_def strategy1_def strategy2_def smartFetch_def tryCatch_def bindE_def
  fetch_def throwE_def returnE_def liftE_def date_now_def ok_def json_def activeMembers_def
  getp_def truthy_def always_def script_def reply_def w0_def catalog_def domA_def domB_def

text \<open>
  C4. \<open>getAvailableDomains\<close> never throws, and every entry of the sequence it returns is
  active: its \<^verbatim>\<open>isActive\<close> field is truthy, so \<^verbatim>\<open>true\<close> when it is a boolean as the
  \<^verbatim>\<open>Domain\<close> type says. This holds whichever of the two queries produced the result.
\<close>

theorem getAvailableDomains_only_active:
  "\<exists>ds w'. getAvailableDomains E w = (Inr ds, w') \<and>
     (\<forall>d \<in> set ds. isActive d \<and> (\<forall>b. getp d ''isActive'' = Inr (JBool b) \<longrightarrow> b))"
proof -
  obtain ds w' where run: "getAvailableDomains E w = (Inr ds, w')"
    using getAvailableDomains_total by blast
  have "isActive d" if "d \<in> set ds" for d
  proof (cases "strategy1 E w")
    case (Pair r w1)
    show ?thesis
    proof (cases r)
      case (Inl e)
      with Pair run that show ?thesis
        by (simp add: getAvailableDomains_def tryCatch_def returnE_def)
    next
      case (Inr xs)
      with Pair run have "xs = ds"
        by (simp add: getAvailableDomains_def tryCatch_def)
      with Pair Inr that show ?thesis
        using strategy1_sound by blast
    qed
  qed
  moreover have "b" if "isActive d" "getp d ''isActive'' = Inr (JBool b)" for d b
    using that by (simp add: isActive_def truthy_def)
  ultimately show ?thesis using run by blast
qed

text \<open>
  The catalog of two entries, one active and one not: only the active one is returned.
\<close>

theorem getAvailableDomains_only_active_witness:
  "fst (getAvailableDomains (always (reply 200 (catalog [domA, domB]))) w0) = Inr [domA]
   \<and> isActive domA \<and> \<not> isActive domB"
proof -
  have run: "fst (getAvailableDomains (always (reply 200 (catalog [domA, domB]))) w0) = Inr [domA]"
    by (simp add: run_defs)
  from getAvailableDomains_only_active [of "always (reply 200 (catalog [domA, domB]))" w0] run
  have "isActive domA" by auto
  moreover have "\<not> isActive domB" by (simp add: isActive_def domB_def getp_def truthy_def)
  ultimately show ?thesis using run by simp
qed

text \<open>
  C5. When the response to the first query is a success whose catalog has at least one
  active entry, \<open>getAvailableDomains\<close> returns exactly those entries, in the world the
  first query left: the only requests issued are that query and, if it was blocked, its
  one proxied repetition. The second query is not issued.
\<close>

theorem strategyA_suffices:
  assumes "smartFetch E (urlA (clock E (ticks w))) noOptions (w\<lparr>ticks := Suc (ticks w)\<rparr>) = (Inr res, w')"
    and "ok res" and "json res = Inr data"
    and "activeMembers data = Inr ds" and "ds \<noteq> []"
  shows "getAvailableDomains E w = (Inr ds, w')
    \<and> (issued (getAvailableDomains E) w = [Fetch (urlA (clock E (ticks w))) noOptions]
       \<or> issued (getAvailableDomains E) w =
           [Fetch (urlA (clock E (ticks w))) noOptions,
            Fetch (proxyUrl (urlA (clock E (ticks w))) (clock E (Suc (ticks w)))) noOptions])"
proof -
  have run: "getAvailableDomains E w = (Inr ds, w')"
    using assms
    by (simp add: getAvailableDomains_def strategy1_def tryCatch_def bindE_def date_now_def
        liftE_def returnE_def)
  have "trace w' = trace w @ [Fetch (urlA (clock E (ticks w))) noOptions]
      \<or> trace w' = trace w @ [Fetch (urlA (clock E (ticks w))) noOptions,
            Fetch (proxyUrl (urlA (clock E (ticks w))) (clock E (Suc (ticks w)))) noOptions]"
    using assms(1) smartFetch_run
      [of E "urlA (clock E (ticks w))" noOptions "w\<lparr>ticks := Suc (ticks w)\<rparr>"]
    by (auto split: if_splits)
  with run show ?thesis by (auto simp add: issued_def)
qed

theorem strategyA_suffices_witness:
  "getAvailableDomains (always (reply 200 (catalog [domA, domB]))) w0 =
     (Inr [domA], \<lparr>trace = [Fetch (urlA 1000) noOptions], ticks = 1, draws = 0\<rparr>)"
proof -
  let ?E = "always (reply 200 (catalog [domA, domB]))"
  let ?res = "\<lparr>status = 200, content = catalog [domA, domB]\<rparr>"
  have 1: "smartFetch ?E (urlA (clock ?E (ticks w0))) noOptions (w0\<lparr>ticks := Suc (ticks w0)\<rparr>) =
      (Inr ?res, \<lparr>trace = [Fetch (urlA 1000) noOptions], ticks = 1, draws = 0\<rparr>)"
    by (simp add: run_defs)
  have 2: "ok ?res" by (simp add: ok_def)
  have 3: "json ?res = Inr (JObj [(''hydra:member'', JArr [domA, domB])])"
    by (simp add: json_def catalog_def)
  have 4: "activeMembers (JObj [(''hydra:member'', JArr [domA, domB])]) = Inr [domA]"
    by (simp add: activeMembers_def getp_def truthy_def domA_def domB_def)
  from strategyA_suffices [OF 1 2 3 4] show ?thesis by simp
qed

section \<open>Account creation\<close>

subsection \<open>Resolving the domain\<close>

lemma domainLoop_step:
  "k < 3 \<Longrightarrow> getAvailableDomains E w = (Inr ds', w1) \<Longrightarrow>
   domainLoop E k ds w =
     (if ds' \<noteq> [] then (Inr ds', w1) else domainLoop E (Suc k) ds' (sleep 500 w1))"
  by (subst domainLoop.simps) simp

lemma domainLoop_done: "\<not> k < 3 \<Longrightarrow> domainLoop E k ds w = (Inr ds, w)"
  by (subst domainLoop.simps) simp

lemma domainLoop_unrolled:
  assumes "getAvailableDomains E w = (Inr d1, w1)"
    and "getAvailableDomains E (sleep 500 w1) = (Inr d2, w2)"
    and "getAvailableDomains E (sleep 500 w2) = (Inr d3, w3)"
  shows "domainLoop E 0 [] w =
     (if d1 \<noteq> [] then (Inr d1, w1)
      else if d2 \<noteq> [] then (Inr d2, w2)
      else if d3 \<noteq> [] then (Inr d3, w3)
      else (Inr [], sleep 500 w3))"
proof -
  have 3: "domainLoop E (Suc (Suc (Suc 0))) d3 (sleep 500 w3) = (Inr d3, sleep 500 w3)"
    by (rule domainLoop_done) simp
  have 2: "domainLoop E (Suc (Suc 0)) d2 (sleep 500 w2) =
      (if d3 \<noteq> [] then (Inr d3, w3) else (Inr [], sleep 500 w3))"
    using domainLoop_step [of "Suc (Suc 0)" E "sleep 500 w2" d3 w3 d2] assms(3) 3 by auto
  have 1: "domainLoop E (Suc 0) d1 (sleep 500 w1) =
      (if d2 \<noteq> [] then (Inr d2, w2) else if d3 \<noteq> [] then (Inr d3, w3) else (Inr [], sleep 500 w3))"
    using domainLoop_step [of "Suc 0" E "sleep 500 w1" d2 w2 d1] assms(2) 2 by auto
  show ?thesis
    using domainLoop_step [of 0 E w d1 w1 "[]"] assms(1) 1 by auto
qed

lemma domainLoop_budget:
  "\<exists>evs. trace (snd (domainLoop E k ds w)) = trace w @ evs \<and> discoveryBudget (3 - k) evs"
proof (induction E k ds w rule: domainLoop.induct)
  case (1 E k domains w)
  show ?case
  proof (cases "k < 3")
    case False
    then show ?thesis by (simp add: domainLoop.simps discoveryBudget_def)
  next
    case True
    obtain r w1 where run: "getAvailableDomains E w = (r, w1)"
      by (cases "getAvailableDomains E w")
    from emits_run [OF emits_getAvailableDomains run]
    obtain a where a: "trace w1 = trace w @ a" "oneDiscovery a"
      by auto
    show ?thesis
    proof (cases r)
      case (Inl e)
      with True run a show ?thesis
        by (simp add: domainLoop.simps discoveryBudget_def oneDiscovery_def)
    next
      case (Inr ds')
      show ?thesis
      proof (cases "length ds' > 0")
        case True
        with \<open>k < 3\<close> run Inr a show ?thesis
          by (simp add: domainLoop.simps discoveryBudget_def oneDiscovery_def)
      next
        case False
        from "1.IH" [OF \<open>k < 3\<close> run [symmetric] Inr False] obtain b where
          b: "trace (snd (domainLoop E (Suc k) ds' (sleep 500 w1))) = trace (sleep 500 w1) @ b"
             "discoveryBudget (3 - Suc k) b"
          by auto
        have eq: "domainLoop E k domains w = domainLoop E (Suc k) ds' (sleep 500 w1)"
          using \<open>k < 3\<close> run Inr False by (subst domainLoop.simps) simp
        have "trace (snd (domainLoop E k domains w)) = trace w @ (a @ Sleep 500 # b)"
          using eq a b by simp
        moreover have "discoveryBudget (3 - k) (a @ Sleep 500 # b)"
          using a(2) b(2) \<open>k < 3\<close> by (auto simp add: discoveryBudget_def oneDiscovery_def)
        ultimately show ?thesis by blast
      qed
    qed
  qed
qed

lemma emits_domainLoop: "emits (domainLoop E k ds) (discoveryBudget (3 - k))"
  unfolding emits_def using domainLoop_budget by blast

lemma pickDomain_member:
  "ds \<noteq> [] \<Longrightarrow> \<exists>d \<in> set ds. pickDomain E ds w = (getp d ''domain'', w\<lparr>draws := Suc (draws w)\<rparr>)"
  by (auto simp add: pickDomain_def random_floor_def intro!: bexI [where x = "ds ! (random E (draws w) mod length ds)"])

lemma emits_pickDomain: "emits (pickDomain E ds) quiet"
  by (rule emitsI) (auto simp add: pickDomain_def random_floor_def)

lemma emits_resolveDomain: "emits (resolveDomain E cd) (discoveryBudget 3)"
  unfolding resolveDomain_def
  apply (cases "truthyStr cd")
   apply (simp add: emits_returnE discoveryBudget_def)
  apply simp
  apply (rule emits_bindE [where P = "discoveryBudget 3" and Q = quiet])
     apply (rule emits_weaken [OF emits_domainLoop], simp)
    apply (auto intro!: emits_throwE emits_pickDomain simp add: discoveryBudget_def quiet_def)
  done

lemma resolve_custom: "resolveDomain E (Some ''x.com'') w = (Inr (JStr ''x.com''), w)"
  by (simp add: resolveDomain_def truthyStr_def returnE_def)

subsection \<open>The creation loop\<close>

lemma round_strings:
  obtains u w1 pw w2 where
    "(if ic then (the cu, w) else randomString E 10 w) = (u, w1)"
    "randomString E 12 w1 = (pw, w2)" "trace w2 = trace w"
proof -
  obtain u w1 where u: "(if ic then (the cu, w) else randomString E 10 w) = (u, w1)"
    by (cases "if ic then (the cu, w) else randomString E 10 w")
  then have t1: "trace w1 = trace w"
    by (auto split: if_splits dest: arg_cong [where f = "\<lambda>x. trace (snd x)"])
  obtain pw w2 where p: "randomString E 12 w1 = (pw, w2)" by (cases "randomString E 12 w1")
  then have "trace w2 = trace w"
    using t1 by (auto dest: arg_cong [where f = "\<lambda>x. trace (snd x)"])
  with u p that show thesis by blast
qed

lemma not_ok_422: "status r = 422 \<Longrightarrow> \<not> ok r"
  by (simp add: ok_def)

lemma createLoop_step:
  assumes "i < n"
    and "(if ic then (the cu, w) else randomString E 10 w) = (u, w1)"
    and "randomString E 12 w1 = (pw, w2)"
    and "to_string d = Inr ds"
    and "smartFetch E accountsUrl (credentials (u @ ''@'' @ ds) pw) w2 = (Inr r, w3)"
  shows "createLoop E ic cu d n i a p w =
     (if ok r then (Inr (True, u @ ''@'' @ ds, pw), w3)
      else if status r = 422 then
        (if ic then (Inl UsernameUnavailable, w3)
         else createLoop E ic cu d n (Suc i) (u @ ''@'' @ ds) pw w3)
      else (case text_of r of
              Inl e \<Rightarrow> (Inl e, w3)
            | Inr errText \<Rightarrow> (Inl (CreationFailed (status r)), w3)))"
  using assms by (subst createLoop.simps) simp

lemma createLoop_done: "\<not> i < n \<Longrightarrow> createLoop E ic cu d n i a p w = (Inr (False, a, p), w)"
  by (subst createLoop.simps) simp

lemma createLoop_budget:
  "\<exists>evs. trace (snd (createLoop E ic cu d n i a p w)) = trace w @ evs \<and> creationBudget (n - i) evs"
proof (induction E ic cu d n i a p w rule: createLoop.induct)
  case (1 E isCustom customUsername domain maxRetries i address pw w)
  show ?case
  proof (cases "i < maxRetries")
    case False
    then show ?thesis by (simp add: createLoop.simps creationBudget_def)
  next
    case True
    obtain u w1 where u: "(if isCustom then (the customUsername, w) else randomString E 10 w) = (u, w1)"
      by (cases "if isCustom then (the customUsername, w) else randomString E 10 w")
    then have t1: "trace w1 = trace w"
      by (auto split: if_splits dest: arg_cong [where f = "\<lambda>x. trace (snd x)"])
    obtain p' w2 where p': "randomString E 12 w1 = (p', w2)" by (cases "randomString E 12 w1")
    then have t2: "trace w2 = trace w1"
      by (auto dest: arg_cong [where f = "\<lambda>x. trace (snd x)"])
    show ?thesis
    proof (cases "to_string domain")
      case (Inl e)
      with True u p' t1 t2 show ?thesis
        by (simp add: createLoop.simps creationBudget_def)
    next
      case (Inr ds)
      obtain r w3 where sf: "smartFetch E accountsUrl (credentials (u @ ''@'' @ ds) p') w2 = (r, w3)"
        by (cases "smartFetch E accountsUrl (credentials (u @ ''@'' @ ds) p') w2")
      from emits_run [OF emits_smartFetch_tally sf] obtain evs where
        evs: "trace w3 = trace w2 @ evs" "accountRequests evs = 1" "discoveries evs = 0" "delays evs = []"
        by auto
      show ?thesis
      proof (cases r)
        case (Inl e)
        with True u p' t1 t2 \<open>to_string domain = Inr ds\<close> sf evs show ?thesis
          by (simp add: createLoop.simps creationBudget_def)
      next
        case res: (Inr createRes)
        show ?thesis
        proof (cases "\<not> ok createRes \<and> status createRes = 422 \<and> \<not> isCustom")
          case False
          with True u p' t1 t2 \<open>to_string domain = Inr ds\<close> sf evs res show ?thesis
            by (auto simp add: createLoop.simps creationBudget_def split: sum.splits)
        next
          case again: True
          have eq: "createLoop E isCustom customUsername domain maxRetries i address pw w =
              createLoop E isCustom customUsername domain maxRetries (Suc i) (u @ ''@'' @ ds) p' w3"
            using True u p' Inr sf res again by (subst createLoop.simps) simp
          from "1.IH" [OF True u [symmetric] p' [symmetric] Inr sf [symmetric] res]
            again
          obtain b where
            b: "trace (snd (createLoop E isCustom customUsername domain maxRetries (Suc i)
                  (u @ ''@'' @ ds) p' w3)) = trace w3 @ b"
               "creationBudget (maxRetries - Suc i) b"
            by auto
          have "trace (snd (createLoop E isCustom customUsername domain maxRetries i address pw w))
              = trace w @ (evs @ b)"
            using eq b(1) evs(1) t1 t2 by simp
          moreover have "creationBudget (maxRetries - i) (evs @ b)"
            using evs b(2) True by (auto simp add: creationBudget_def)
          ultimately show ?thesis by blast
        qed
      qed
    qed
  qed
qed

lemma emits_createLoop: "emits (createLoop E ic cu d n i a p) (creationBudget (n - i))"
  unfolding emits_def using createLoop_budget by blast

lemma createLoop_exhausts:
  assumes all422: "\<And>options w'. \<exists>r w''. smartFetch E accountsUrl options w' = (Inr r, w'') \<and> status r = 422"
    and dom: "to_string d = Inr ds"
  shows "i \<le> n \<Longrightarrow>
    \<exists>a' p' w' evs. createLoop E False cu d n i a p w = (Inr (False, a', p'), w')
       \<and> trace w' = trace w @ evs \<and> accountRequests evs = n - i"
proof (induction k \<equiv> "n - i" arbitrary: i a p w)
  case 0
  then have "\<not> i < n" by simp
  from createLoop_done [OF this] 0 show ?case by simp
next
  case (Suc k)
  then have lt: "i < n" by simp
  obtain u w1 pw w2 where
    u: "(if False then (the cu, w) else randomString E 10 w) = (u, w1)"
    and p: "randomString E 12 w1 = (pw, w2)" and t2: "trace w2 = trace w"
    by (rule round_strings)
  from all422 obtain r w3 where
    sf: "smartFetch E accountsUrl (credentials (u @ ''@'' @ ds) pw) w2 = (Inr r, w3)"
    and st: "status r = 422" by blast
  from emits_run [OF emits_smartFetch_tally sf] obtain e where
    e: "trace w3 = trace w2 @ e" "accountRequests e = 1" by auto
  have step: "createLoop E False cu d n i a p w =
      createLoop E False cu d n (Suc i) (u @ ''@'' @ ds) pw w3"
    using createLoop_step [OF lt u p dom sf] st not_ok_422 [OF st] by simp
  from Suc have "k = n - Suc i" "Suc i \<le> n" by simp_all
  from Suc.hyps(1) [OF this] obtain a' p' w' evs where
    rest: "createLoop E False cu d n (Suc i) (u @ ''@'' @ ds) pw w3 = (Inr (False, a', p'), w')"
      "trace w' = trace w3 @ evs" "accountRequests evs = n - Suc i"
    by blast
  have "trace w' = trace w @ (e @ evs)" "accountRequests (e @ evs) = n - i"
    using rest e t2 lt by simp_all
  with step rest(1) show ?case by metis
qed

lemma createLoop_custom_once:
  assumes "to_string d = Inr ds"
  shows "emits (createLoop E True cu d 1 0 a p) (\<lambda>evs. accountRequests evs = 1 \<and> discoveries evs = 0 \<and> delays evs = [])"
proof (rule emitsI)
  fix w r w'
  assume run: "createLoop E True cu d 1 0 a p w = (r, w')"
  obtain u w1 pw w2 where
    u: "(if True then (the cu, w) else randomString E 10 w) = (u, w1)"
    and p: "randomString E 12 w1 = (pw, w2)" and t2: "trace w2 = trace w"
    by (rule round_strings)
  obtain r3 w3 where sf: "smartFetch E accountsUrl (credentials (u @ ''@'' @ ds) pw) w2 = (r3, w3)"
    by (cases "smartFetch E accountsUrl (credentials (u @ ''@'' @ ds) pw) w2")
  from emits_run [OF emits_smartFetch_tally sf] obtain e where
    e: "trace w3 = trace w2 @ e" "accountRequests e = 1" "discoveries e = 0" "delays e = []" by auto
  have "w' = w3"
    using run u p assms sf
    by (subst (asm) createLoop.simps) (auto split: sum.splits if_splits)
  with e t2 show "\<exists>evs. trace w' = trace w @ evs \<and> accountRequests evs = 1 \<and> discoveries evs = 0 \<and> delays evs = []"
    by simp
qed

lemma createLoop_first_ok:
  assumes "0 < n" and "to_string d = Inr ds"
    and net: "\<And>options w'. trace w' = trace w \<Longrightarrow>
       smartFetch E accountsUrl options w' = (Inr r, w'\<lparr>trace := trace w' @ [Fetch accountsUrl options]\<rparr>)"
    and "ok r"
  shows "\<exists>a p w2. createLoop E ic cu d n 0 a0 p0 w = (Inr (True, a, p), w2)
           \<and> trace w2 = trace w @ [Fetch accountsUrl (credentials a p)]"
proof -
  obtain u w1 where u: "(if ic then (the cu, w) else randomString E 10 w) = (u, w1)"
    by (cases "if ic then (the cu, w) else randomString E 10 w")
  then have t1: "trace w1 = trace w"
    by (auto split: if_splits dest: arg_cong [where f = "\<lambda>x. trace (snd x)"])
  obtain pw w2 where p: "randomString E 12 w1 = (pw, w2)" by (cases "randomString E 12 w1")
  then have t2: "trace w2 = trace w"
    using t1 by (auto dest: arg_cong [where f = "\<lambda>x. trace (snd x)"])
  from createLoop_step [OF assms(1) u p assms(2) net [OF t2]] \<open>ok r\<close>
  have "createLoop E ic cu d n 0 a0 p0 w =
      (Inr (True, u @ ''@'' @ ds, pw),
       w2\<lparr>trace := trace w2 @ [Fetch accountsUrl (credentials (u @ ''@'' @ ds) pw)]\<rparr>)"
    by simp
  with t2 show ?thesis by simp
qed

text \<open>
  The loop read round by round: each round is one \<open>attempt\<close>, which issues one creation
  request when it returns; \<open>k\<close> rounds answered 422 carry the loop from round \<open>i\<close> to round
  \<open>i + k\<close>.
\<close>

lemma createLoop_attempt:
  "createLoop E ic cu d n i a p w =
     (if i < n then
        (case attempt E ic cu d w of
           (Inl e, w3) \<Rightarrow> (Inl e, w3)
         | (Inr (a', p', r), w3) \<Rightarrow>
             if ok r then (Inr (True, a', p'), w3)
             else if status r = 422 then
               (if ic then (Inl UsernameUnavailable, w3)
                else createLoop E ic cu d n (Suc i) a' p' w3)
             else (case text_of r of
                     Inl e \<Rightarrow> (Inl e, w3)
                   | Inr errText \<Rightarrow> (Inl (CreationFailed (status r)), w3)))
      else (Inr (False, a, p), w))"
  by (subst createLoop.simps) (simp add: attempt_def split: prod.splits sum.splits)

lemma attempt_requests:
  assumes "attempt E ic cu d w = (Inr x, w')"
  shows "\<exists>evs. trace w' = trace w @ evs \<and> accountRequests evs = 1"
proof -
  obtain u w1 pw w2 where
    u: "(if ic then (the cu, w) else randomString E 10 w) = (u, w1)"
    and p: "randomString E 12 w1 = (pw, w2)" and t2: "trace w2 = trace w"
    by (rule round_strings)
  from assms u p obtain ds r where
    sf: "smartFetch E accountsUrl (credentials (u @ ''@'' @ ds) pw) w2 = (Inr r, w')"
    by (auto simp add: attempt_def split: sum.splits prod.splits)
  from emits_run [OF emits_smartFetch_tally sf] t2 show ?thesis by auto
qed

lemma after422_loop:
  "after422 E cu d k w = Some wk \<Longrightarrow> i + k \<le> n \<Longrightarrow>
   \<exists>a' p' evs. createLoop E False cu d n i a p w = createLoop E False cu d n (i + k) a' p' wk
      \<and> trace wk = trace w @ evs \<and> accountRequests evs = k"
proof (induction k arbitrary: i a p w)
  case 0
  then show ?case by auto
next
  case (Suc k)
  from Suc.prems(1) obtain a1 p1 r w1 where
    att: "attempt E False cu d w = (Inr (a1, p1, r), w1)" and st: "status r = 422"
    and rest: "after422 E cu d k w1 = Some wk"
    by (auto split: prod.splits sum.splits if_splits)
  from attempt_requests [OF att] obtain e where e: "trace w1 = trace w @ e" "accountRequests e = 1"
    by blast
  have step: "createLoop E False cu d n i a p w = createLoop E False cu d n (Suc i) a1 p1 w1"
    using Suc.prems(2) att st not_ok_422 [OF st] by (subst createLoop_attempt) simp
  from Suc.prems(2) have "Suc i + k \<le> n" by simp
  from Suc.IH [OF rest this, of a1 p1] obtain a' p' evs where
    ih: "createLoop E False cu d n (Suc i) a1 p1 w1 = createLoop E False cu d n (Suc i + k) a' p' wk"
      "trace wk = trace w1 @ evs" "accountRequests evs = k"
    by blast
  have "trace wk = trace w @ (e @ evs)" "accountRequests (e @ evs) = Suc k"
    using e ih by simp_all
  with step ih(1) show ?case by (metis add_Suc_shift add_Suc)
qed

lemma attempt_answered:
  assumes net: "\<And>options w'. trace w' = trace w \<Longrightarrow>
       smartFetch E accountsUrl options w' = (Inr r, w'\<lparr>trace := trace w' @ [Fetch accountsUrl options]\<rparr>)"
    and dom: "to_string d = Inr ds"
  shows "\<exists>a p w'. attempt E ic cu d w = (Inr (a, p, r), w')
           \<and> trace w' = trace w @ [Fetch accountsUrl (credentials a p)]"
proof -
  obtain u w1 pw w2 where
    u: "(if ic then (the cu, w) else randomString E 10 w) = (u, w1)"
    and p: "randomString E 12 w1 = (pw, w2)" and t2: "trace w2 = trace w"
    by (rule round_strings)
  have "attempt E ic cu d w =
      (Inr (u @ ''@'' @ ds, pw, r),
       w2\<lparr>trace := trace w2 @ [Fetch accountsUrl (credentials (u @ ''@'' @ ds) pw)]\<rparr>)"
    using u p dom net [OF t2] by (simp add: attempt_def)
  with t2 show ?thesis by simp
qed

lemma after422_always:
  "\<exists>wk. after422 (always (reply 422 c)) cu (JStr ds) k w = Some wk"
proof (induction k arbitrary: w)
  case 0
  show ?case by simp
next
  case (Suc k)
  have "\<exists>a p w'. attempt (always (reply 422 c)) False cu (JStr ds) w
          = (Inr (a, p, \<lparr>status = 422, content = c\<rparr>), w')
        \<and> trace w' = trace w @ [Fetch accountsUrl (credentials a p)]"
    by (rule attempt_answered [where ds = ds]) (simp_all add: smartFetch_always)
  then obtain a p w' where
    "attempt (always (reply 422 c)) False cu (JStr ds) w = (Inr (a, p, \<lparr>status = 422, content = c\<rparr>), w')"
    by blast
  with Suc [of w'] show ?case by simp
qed

subsection \<open>Login and the whole call\<close>

lemma login_run:
  assumes "smartFetch E (API_BASE @ ''/token'') (credentials a p) w = (Inr tokenRes, w1)"
    and "ok tokenRes" and "json tokenRes = Inr td" and "getp td ''token'' = Inr tok"
    and "to_string tok = Inr t"
    and "smartFetch E (API_BASE @ ''/me'') (bearer t) w1 = (Inr meRes, w2)"
  shows "login E ic a p w =
     (case content meRes of
        Unreadable \<Rightarrow> (Inl BodyUnreadable, w2)
      | Malformed \<Rightarrow> (Inl SyntaxError, w2)
      | Parsed meData \<Rightarrow>
          (case getp meData ''id'' of
             Inl e \<Rightarrow> (Inl e, w2\<lparr>ticks := Suc (ticks w2)\<rparr>)
           | Inr ident \<Rightarrow>
               (Inr \<lparr>emailAddress = a, createdAt = clock E (ticks w2),
                     expiresAt = (if ic then None else Some (clock E (ticks w2) + 10 * 60 * 1000)),
                     isPremium = ic, token = tok, accountId = ident, password = p,
                     isMock = False\<rparr>,
                w2\<lparr>ticks := Suc (ticks w2)\<rparr>)))"
  using assms
  by (simp add: login_def bindE_def liftE_def throwE_def date_now_def json_def
      split: content.splits sum.splits)

lemma login_session:
  assumes "login E ic a p w = (Inr s, w')"
  shows "expiresAt s = (if ic then None else Some (createdAt s + 10 * 60 * 1000))
       \<and> isPremium s = ic \<and> emailAddress s = a \<and> password s = p \<and> \<not> isMock s"
  using assms
  by (auto simp add: login_def bindE_def liftE_def throwE_def date_now_def
      split: prod.splits sum.splits if_splits)

lemma emits_login: "emits (login E ic a p) quiet"
proof (rule emitsI)
  fix w r w'
  assume run: "login E ic a p w = (r, w')"
  obtain r1 w1 where s1: "smartFetch E (API_BASE @ ''/token'') (credentials a p) w = (r1, w1)"
    by (cases "smartFetch E (API_BASE @ ''/token'') (credentials a p) w")
  from emits_run [OF emits_smartFetch_quiet s1] obtain e1
    where e1: "trace w1 = trace w @ e1" "quiet e1" by auto
  show "\<exists>evs. trace w' = trace w @ evs \<and> quiet evs"
  proof (cases "\<exists>tokenRes td tok t. r1 = Inr tokenRes \<and> ok tokenRes \<and> json tokenRes = Inr td
                 \<and> getp td ''token'' = Inr tok \<and> to_string tok = Inr t")
    case False
    with run s1 have "w' = w1"
      by (auto simp add: login_def bindE_def liftE_def throwE_def split: sum.splits if_splits)
    with e1 show ?thesis by blast
  next
    case True
    then obtain tokenRes td tok t where ok1: "r1 = Inr tokenRes" "ok tokenRes"
      "json tokenRes = Inr td" "getp td ''token'' = Inr tok" "to_string tok = Inr t"
      by blast
    obtain r2 w2 where s2: "smartFetch E (API_BASE @ ''/me'') (bearer t) w1 = (r2, w2)"
      by (cases "smartFetch E (API_BASE @ ''/me'') (bearer t) w1")
    from emits_run [OF emits_smartFetch_quiet s2] obtain e2
      where e2: "trace w2 = trace w1 @ e2" "quiet e2" by auto
    from run s1 ok1 s2 have "trace w' = trace w2"
      by (auto simp add: login_def bindE_def liftE_def throwE_def date_now_def split: sum.splits)
    with e1 e2 have "trace w' = trace w @ (e1 @ e2)" "quiet (e1 @ e2)" by simp_all
    then show ?thesis by blast
  qed
qed

lemma provision_session:
  assumes "provision E cu d w = (Inr s, w')"
  shows "\<exists>a p w2. login E (truthyStr cu) a p w2 = (Inr s, w')"
  using assms
  by (auto simp add: provision_def bindE_def throwE_def split: prod.splits sum.splits if_splits)

lemma provision_created:
  "createLoop E (truthyStr cu) cu d (if truthyStr cu then 1 else 5) 0 [] [] w = (Inr (True, a, p), w1)
   \<Longrightarrow> provision E cu d w = login E (truthyStr cu) a p w1"
  by (simp add: provision_def bindE_def)

lemma provision_propagates:
  "createLoop E (truthyStr cu) cu d (if truthyStr cu then 1 else 5) 0 [] [] w = (Inl e, w')
   \<Longrightarrow> provision E cu d w = (Inl e, w')"
  by (simp add: provision_def bindE_def)

lemma provision_exhausted:
  "createLoop E (truthyStr cu) cu d (if truthyStr cu then 1 else 5) 0 [] [] w = (Inr (False, a, p), w')
   \<Longrightarrow> provision E cu d w = (Inl CreationExhausted, w')"
  by (simp add: provision_def bindE_def throwE_def)

lemma emits_provision:
  "emits (provision E cu d) (creationBudget (if truthyStr cu then 1 else 5))"
  unfolding provision_def
  apply (rule emits_bindE [where P = "creationBudget (if truthyStr cu then 1 else 5)" and Q = quiet])
     apply (rule emits_weaken [OF emits_createLoop], simp)
    apply (auto intro!: emits_throwE emits_login simp add: creationBudget_def quiet_def)
  done

lemma provision_custom_once:
  assumes "truthyStr cu" and "to_string d = Inr ds"
  shows "emits (provision E cu d) (\<lambda>evs. accountRequests evs = 1)"
proof -
  have loop: "emits (createLoop E (truthyStr cu) cu d (if truthyStr cu then 1 else 5) 0 [] [])
      (\<lambda>evs. accountRequests evs = 1 \<and> discoveries evs = 0 \<and> delays evs = [])"
    using assms(1) createLoop_custom_once [OF assms(2), of E cu "[]" "[]"] by simp
  show ?thesis
    unfolding provision_def
    by (rule emits_bindE [OF loop, where Q = quiet])
      (auto intro!: emits_throwE emits_login simp add: quiet_def)
qed

lemma createRealAccount_resolved:
  "resolveDomain E cd w = (Inr d, w1) \<Longrightarrow> createRealAccount E cu cd w = provision E cu d w1"
  by (simp add: createRealAccount_def bindE_def)

lemma createRealAccount_unresolved:
  "resolveDomain E cd w = (Inl e, w1) \<Longrightarrow> createRealAccount E cu cd w = (Inl e, w1)"
  by (simp add: createRealAccount_def bindE_def)

lemma createRealAccount_session:
  assumes "createRealAccount E cu cd w = (Inr s, w')"
  shows "\<exists>a p w2. login E (truthyStr cu) a p w2 = (Inr s, w')"
proof -
  from assms obtain d w1 where "resolveDomain E cd w = (Inr d, w1)" "provision E cu d w1 = (Inr s, w')"
    by (auto simp add: createRealAccount_def bindE_def split: prod.splits sum.splits)
  then show ?thesis using provision_session by blast
qed

lemma emits_createRealAccount:
  "emits (createRealAccount E cu cd) (callBudget (if truthyStr cu then 1 else 5))"
  unfolding createRealAccount_def
  apply (rule emits_tryCatch [where P = "callBudget (if truthyStr cu then 1 else 5)" and Q = quiet])
     apply (rule emits_bindE [where P = "discoveryBudget 3"
        and Q = "creationBudget (if truthyStr cu then 1 else 5)"])
        apply (rule emits_resolveDomain)
       apply (rule emits_provision)
      apply (simp add: callBudget_def discoveryBudget_def)
     apply (simp add: callBudget_def discoveryBudget_def creationBudget_def)
    apply (rule emits_throwE, simp)
   apply assumption
  apply (simp add: callBudget_def quiet_def)
  done

lemma resolved_requests:
  assumes "resolveDomain E cd w = (Inr d, w1)"
    and "trace (snd (provision E cu d w1)) = trace w1 @ evs"
  shows "accountRequests (issued (createRealAccount E cu cd) w) = accountRequests evs"
proof -
  from emits_run [OF emits_resolveDomain assms(1)] obtain e0 where
    e0: "trace w1 = trace w @ e0" "accountRequests e0 = 0" by (auto simp add: discoveryBudget_def)
  have "trace (snd (createRealAccount E cu cd w)) = trace w @ (e0 @ evs)"
    using createRealAccount_resolved [OF assms(1)] assms(2) e0 by simp
  then have "issued (createRealAccount E cu cd) w = e0 @ evs"
    by (simp add: issued_def)
  with e0 show ?thesis by simp
qed

lemma no_domains:
  assumes "\<And>w. \<exists>w'. getAvailableDomains E w = (Inr [], w')"
  shows "fst (createRealAccount E cu None w) = Inl NoDomainsAvailable
       \<and> accountRequests (issued (createRealAccount E cu None) w) = 0"
proof -
  obtain w1 where 1: "getAvailableDomains E w = (Inr [], w1)"
    using assms by blast
  obtain w2 where 2: "getAvailableDomains E (sleep 500 w1) = (Inr [], w2)"
    using assms by blast
  obtain w3 where 3: "getAvailableDomains E (sleep 500 w2) = (Inr [], w3)"
    using assms by blast
  have "domainLoop E 0 [] w = (Inr [], sleep 500 w3)"
    using domainLoop_unrolled [OF 1 2 3] by simp
  then have r: "resolveDomain E None w = (Inl NoDomainsAvailable, sleep 500 w3)"
    by (simp add: resolveDomain_def truthyStr_def bindE_def throwE_def)
  then have c: "createRealAccount E cu None w = (Inl NoDomainsAvailable, sleep 500 w3)"
    by (rule createRealAccount_unresolved)
  have "issued (createRealAccount E cu None) w = issued (resolveDomain E None) w"
    by (simp add: issued_def r c)
  moreover have "discoveryBudget 3 (issued (resolveDomain E None) w)"
    by (rule emits_issued [OF emits_resolveDomain])
  ultimately show ?thesis using c by (simp add: discoveryBudget_def)
qed

lemma token_reply:
  "ok \<lparr>status = 200, content = Parsed (JObj [(''token'', JStr ''t0k'')])\<rparr>"
  "json \<lparr>status = 200, content = Parsed (JObj [(''token'', JStr ''t0k'')])\<rparr> =
     Inr (JObj [(''token'', JStr ''t0k'')])"
  "getp (JObj [(''token'', JStr ''t0k'')]) ''token'' = Inr (JStr ''t0k'')"
  "to_string (JStr ''t0k'') = Inr ''t0k''"
  by (simp_all add: ok_def json_def getp_def)

lemma threeReplies_run:
  assumes "st \<noteq> 403" and "st \<noteq> 429"
  shows "\<exists>a p w2 w3 w4.
      resolveDomain (threeReplies st c) (Some ''x.com'') w0 = (Inr (JStr ''x.com''), w0)
    \<and> createLoop (threeReplies st c) (truthyStr cu) cu (JStr ''x.com'')
         (if truthyStr cu then 1 else 5) 0 [] [] w0 = (Inr (True, a, p), w2)
    \<and> smartFetch (threeReplies st c) (API_BASE @ ''/token'') (credentials a p) w2 =
         (Inr \<lparr>status = 200, content = Parsed (JObj [(''token'', JStr ''t0k'')])\<rparr>, w3)
    \<and> smartFetch (threeReplies st c) (API_BASE @ ''/me'') (bearer ''t0k'') w3 =
         (Inr \<lparr>status = st, content = c\<rparr>, w4)"
proof -
  let ?E = "threeReplies st c"
  have r0: "resolveDomain ?E (Some ''x.com'') w0 = (Inr (JStr ''x.com''), w0)"
    by (simp add: resolveDomain_def truthyStr_def returnE_def)
  have net: "smartFetch ?E accountsUrl options w' =
      (Inr \<lparr>status = 201, content = Parsed (JObj [])\<rparr>, w'\<lparr>trace := trace w' @ [Fetch accountsUrl options]\<rparr>)"
    if "trace w' = trace w0" for options w'
    unfolding threeReplies_def
    by (rule smartFetch_script [where k = 0]) (simp_all add: that w0_def reply_def)
  have "\<exists>a p w2. createLoop ?E (truthyStr cu) cu (JStr ''x.com'') (if truthyStr cu then 1 else 5) 0 [] [] w0
           = (Inr (True, a, p), w2) \<and> trace w2 = trace w0 @ [Fetch accountsUrl (credentials a p)]"
    by (rule createLoop_first_ok [where ds = "''x.com''"
          and r = "\<lparr>status = 201, content = Parsed (JObj [])\<rparr>"])
      (simp_all add: net ok_def)
  then obtain a p w2 where
    loop: "createLoop ?E (truthyStr cu) cu (JStr ''x.com'') (if truthyStr cu then 1 else 5) 0 [] [] w0
           = (Inr (True, a, p), w2)"
    and t2: "trace w2 = [Fetch accountsUrl (credentials a p)]"
    by (auto simp add: w0_def)
  let ?w3 = "w2\<lparr>trace := trace w2 @ [Fetch (API_BASE @ ''/token'') (credentials a p)]\<rparr>"
  have tok: "smartFetch ?E (API_BASE @ ''/token'') (credentials a p) w2 =
      (Inr \<lparr>status = 200, content = Parsed (JObj [(''token'', JStr ''t0k'')])\<rparr>, ?w3)"
    unfolding threeReplies_def
    by (rule smartFetch_script [where k = 1]) (simp_all add: t2 reply_def)
  have me: "smartFetch ?E (API_BASE @ ''/me'') (bearer ''t0k'') ?w3 =
      (Inr \<lparr>status = st, content = c\<rparr>,
       ?w3\<lparr>trace := trace ?w3 @ [Fetch (API_BASE @ ''/me'') (bearer ''t0k'')]\<rparr>)"
    unfolding threeReplies_def
    by (rule smartFetch_script [where k = 2]) (simp_all add: t2 reply_def assms)
  from r0 loop tok me show ?thesis by blast
qed

lemma getp_defined:
  "v \<noteq> JNull \<Longrightarrow> v \<noteq> JUndefined \<Longrightarrow>
   getp v k = Inr (case v of JObj kvs \<Rightarrow> (case map_of kvs k of None \<Rightarrow> JUndefined | Some x \<Rightarrow> x)
                           | _ \<Rightarrow> JUndefined)"
  by (cases v) (simp_all add: getp_def split: option.splits)

subsection \<open>The domain retry\<close>

text \<open>
  C7. A call without a usable \<^verbatim>\<open>customDomain\<close> runs domain discovery at most three times
  and every delay it takes is 500 ms. Naming the results of three successive discoveries,
  each started 500 ms after an empty one: the first non-empty result ends the loop and the
  domain is the \<^verbatim>\<open>domain\<close> field of one of its entries, with which provisioning continues;
  when all three are empty the call fails with the no-domains error, after the third delay.
\<close>

theorem domain_discovery_retry:
  assumes "\<not> truthyStr cd"
    and "getAvailableDomains E w = (Inr d1, w1)"
    and "getAvailableDomains E (sleep 500 w1) = (Inr d2, w2)"
    and "getAvailableDomains E (sleep 500 w2) = (Inr d3, w3)"
  shows "discoveries (issued (createRealAccount E cu cd) w) \<le> 3
     \<and> length (delays (issued (createRealAccount E cu cd) w)) \<le> 3
     \<and> (\<forall>ms \<in> set (delays (issued (createRealAccount E cu cd) w)). ms = 500)
     \<and> resolveDomain E cd w =
         (if d1 \<noteq> [] then pickDomain E d1 w1
          else if d2 \<noteq> [] then pickDomain E d2 w2
          else if d3 \<noteq> [] then pickDomain E d3 w3
          else (Inl NoDomainsAvailable, sleep 500 w3))
     \<and> (d1 = [] \<and> d2 = [] \<and> d3 = [] \<longrightarrow>
          createRealAccount E cu cd w = (Inl NoDomainsAvailable, sleep 500 w3))
     \<and> (\<forall>ds w'. ds \<noteq> [] \<longrightarrow>
          (\<exists>d \<in> set ds. pickDomain E ds w' = (getp d ''domain'', w'\<lparr>draws := Suc (draws w')\<rparr>)))
     \<and> (\<forall>dom w'. resolveDomain E cd w = (Inr dom, w') \<longrightarrow>
          createRealAccount E cu cd w = provision E cu dom w')"
proof -
  have budget: "callBudget (if truthyStr cu then 1 else 5) (issued (createRealAccount E cu cd) w)"
    by (rule emits_issued [OF emits_createRealAccount])
  have resolve: "resolveDomain E cd w =
         (if d1 \<noteq> [] then pickDomain E d1 w1
          else if d2 \<noteq> [] then pickDomain E d2 w2
          else if d3 \<noteq> [] then pickDomain E d3 w3
          else (Inl NoDomainsAvailable, sleep 500 w3))"
    using assms(1) domainLoop_unrolled [OF assms(2-4)]
    by (simp add: resolveDomain_def bindE_def throwE_def)
  have none: "createRealAccount E cu cd w = (Inl NoDomainsAvailable, sleep 500 w3)"
    if "d1 = [] \<and> d2 = [] \<and> d3 = []"
    using that resolve by (simp add: createRealAccount_unresolved)
  from budget resolve none show ?thesis
    by (auto simp add: callBudget_def pickDomain_member createRealAccount_resolved)
qed

lemmas third_defs =
  run_defs emptyCatalog_def thirdTime_def sleep_def pickDomain_def random_floor_def

theorem domain_discovery_retry_witness:
  "fst (resolveDomain thirdTime None w0) = Inr (JStr ''a.com'')
   \<and> delays (trace (snd (resolveDomain thirdTime None w0))) = [500, 500]
   \<and> discoveries (issued (createRealAccount thirdTime None None) w0) \<le> 3"
proof -
  let ?w1 = "\<lparr>trace = [Fetch (urlA 1000) noOptions, Fetch (urlB 1001) noOptions],
              ticks = 2, draws = 0\<rparr>"
  let ?w2 = "\<lparr>trace = [Fetch (urlA 1000) noOptions, Fetch (urlB 1001) noOptions, Sleep 500,
                       Fetch (urlA 1002) noOptions, Fetch (urlB 1003) noOptions],
              ticks = 4, draws = 0\<rparr>"
  let ?w3 = "\<lparr>trace = [Fetch (urlA 1000) noOptions, Fetch (urlB 1001) noOptions, Sleep 500,
                       Fetch (urlA 1002) noOptions, Fetch (urlB 1003) noOptions, Sleep 500,
                       Fetch (urlA 1004) noOptions],
              ticks = 5, draws = 0\<rparr>"
  have 0: "\<not> truthyStr None" by (simp add: truthyStr_def)
  have 1: "getAvailableDomains thirdTime w0 = (Inr [], ?w1)"
    by (simp add: third_defs)
  have 2: "getAvailableDomains thirdTime (sleep 500 ?w1) = (Inr [], ?w2)"
    by (simp add: third_defs)
  have 3: "getAvailableDomains thirdTime (sleep 500 ?w2) = (Inr [domA], ?w3)"
    by (simp add: third_defs)
  from domain_discovery_retry [OF 0 1 2 3, of None]
  have "resolveDomain thirdTime None w0 = pickDomain thirdTime [domA] ?w3"
    and "discoveries (issued (createRealAccount thirdTime None None) w0) \<le> 3"
    by simp_all
  then show ?thesis by (simp add: third_defs)
qed

subsection \<open>Random usernames\<close>

text \<open>
  C1, as amended. In random mode a call issues at most five account-creation requests
  (calls of \<open>smartFetch\<close> on the accounts address, each seen as one direct request). If
  every attempt is answered 422 the call fails with the exhausted error after exactly
  five attempts: this is stated once for a network that answers 422 to every creation
  request, and once for the five successive attempts of this call. And if, after any
  number \<open>k\<close> below five of attempts answered 422, the next attempt gets a response that
  is neither a success nor a 422 and whose body can be read, the call fails at once with
  the error carrying that status, in the world that request left and after exactly
  \<open>k + 1\<close> attempts.
\<close>

theorem random_mode_retry_budget:
  assumes "\<not> truthyStr cu"
  shows "accountRequests (issued (createRealAccount E cu cd) w) \<le> 5
     \<and> (\<forall>d w1 ds. resolveDomain E cd w = (Inr d, w1) \<and> to_string d = Inr ds
            \<and> (\<forall>options w'. \<exists>r w''. smartFetch E accountsUrl options w' = (Inr r, w'') \<and> status r = 422)
          \<longrightarrow> fst (createRealAccount E cu cd w) = Inl CreationExhausted
            \<and> accountRequests (issued (createRealAccount E cu cd) w) = 5)
     \<and> (\<forall>d w1 w5. resolveDomain E cd w = (Inr d, w1) \<and> after422 E cu d 5 w1 = Some w5
          \<longrightarrow> createRealAccount E cu cd w = (Inl CreationExhausted, w5)
            \<and> accountRequests (issued (createRealAccount E cu cd) w) = 5)
     \<and> (\<forall>d w1 k wk a p r w3.
            resolveDomain E cd w = (Inr d, w1) \<and> k < 5 \<and> after422 E cu d k w1 = Some wk
            \<and> attempt E False cu d wk = (Inr (a, p, r), w3)
            \<and> \<not> ok r \<and> status r \<noteq> 422 \<and> text_of r = Inr ()
          \<longrightarrow> createRealAccount E cu cd w = (Inl (CreationFailed (status r)), w3)
            \<and> accountRequests (issued (createRealAccount E cu cd) w) = k + 1)"
proof (intro conjI allI impI)
  have "callBudget (if truthyStr cu then 1 else 5) (issued (createRealAccount E cu cd) w)"
    by (rule emits_issued [OF emits_createRealAccount])
  with assms show "accountRequests (issued (createRealAccount E cu cd) w) \<le> 5"
    by (simp add: callBudget_def)
next
  fix d w1 ds
  assume h: "resolveDomain E cd w = (Inr d, w1) \<and> to_string d = Inr ds
     \<and> (\<forall>options w'. \<exists>r w''. smartFetch E accountsUrl options w' = (Inr r, w'') \<and> status r = 422)"
  then have "\<exists>a' p' w' evs. createLoop E False cu d 5 0 [] [] w1 = (Inr (False, a', p'), w')
       \<and> trace w' = trace w1 @ evs \<and> accountRequests evs = 5 - 0"
    by (intro createLoop_exhausts [where ds = ds]) auto
  then obtain a' p' w' evs where
    loop: "createLoop E False cu d 5 0 [] [] w1 = (Inr (False, a', p'), w')"
    and evs: "trace w' = trace w1 @ evs" "accountRequests evs = 5" by auto
  from loop assms have prov: "provision E cu d w1 = (Inl CreationExhausted, w')"
    by (intro provision_exhausted) simp
  with h show "fst (createRealAccount E cu cd w) = Inl CreationExhausted"
    by (simp add: createRealAccount_resolved)
  from h prov evs show "accountRequests (issued (createRealAccount E cu cd) w) = 5"
    by (simp add: resolved_requests [where evs = evs])
next
  fix d w1 w5
  assume h: "resolveDomain E cd w = (Inr d, w1) \<and> after422 E cu d 5 w1 = Some w5"
  then have "\<exists>a' p' evs. createLoop E False cu d 5 0 [] [] w1 = createLoop E False cu d 5 (0 + 5) a' p' w5
      \<and> trace w5 = trace w1 @ evs \<and> accountRequests evs = 5"
    by (intro after422_loop) simp_all
  then obtain a' p' evs where
    loop: "createLoop E False cu d 5 0 [] [] w1 = (Inr (False, a', p'), w5)"
    and evs: "trace w5 = trace w1 @ evs" "accountRequests evs = 5"
    by (auto simp add: createLoop_done)
  from loop assms have prov: "provision E cu d w1 = (Inl CreationExhausted, w5)"
    by (intro provision_exhausted) simp
  with h show "createRealAccount E cu cd w = (Inl CreationExhausted, w5)"
    by (simp add: createRealAccount_resolved)
  from h prov evs show "accountRequests (issued (createRealAccount E cu cd) w) = 5"
    by (simp add: resolved_requests [where evs = evs])
next
  fix d w1 and k :: nat and wk a p r w3
  assume h: "resolveDomain E cd w = (Inr d, w1) \<and> k < 5 \<and> after422 E cu d k w1 = Some wk
            \<and> attempt E False cu d wk = (Inr (a, p, r), w3)
            \<and> \<not> ok r \<and> status r \<noteq> 422 \<and> text_of r = Inr ()"
  then have "\<exists>a' p' evs. createLoop E False cu d 5 0 [] [] w1 = createLoop E False cu d 5 (0 + k) a' p' wk
      \<and> trace wk = trace w1 @ evs \<and> accountRequests evs = k"
    by (intro after422_loop) simp_all
  then obtain a' p' evs where
    loop: "createLoop E False cu d 5 0 [] [] w1 = createLoop E False cu d 5 k a' p' wk"
    and evs: "trace wk = trace w1 @ evs" "accountRequests evs = k"
    by auto
  from h have last: "createLoop E False cu d 5 k a' p' wk = (Inl (CreationFailed (status r)), w3)"
    by (subst createLoop_attempt) simp
  from h attempt_requests obtain e where e: "trace w3 = trace wk @ e" "accountRequests e = 1"
    by blast
  from loop last assms have prov: "provision E cu d w1 = (Inl (CreationFailed (status r)), w3)"
    by (intro provision_propagates) simp
  with h show "createRealAccount E cu cd w = (Inl (CreationFailed (status r)), w3)"
    by (simp add: createRealAccount_resolved)
  have "trace (snd (provision E cu d w1)) = trace w1 @ (evs @ e)"
    using prov evs e by simp
  with h evs e show "accountRequests (issued (createRealAccount E cu cd) w) = k + 1"
    by (simp add: resolved_requests [where evs = "evs @ e"])
qed

text \<open>
  A network that answers every request with 422, and one that answers the first request
  with 422 and the second with 500 and a readable body; the domain is supplied. The
  first call exhausts its five attempts; the second fails with the status 500 after two.
\<close>

theorem random_mode_retry_budget_witness:
  "fst (createRealAccount (always (reply 422 (Parsed (JObj [])))) None (Some ''x.com'') w0)
     = Inl CreationExhausted
   \<and> accountRequests (issued (createRealAccount (always (reply 422 (Parsed (JObj [])))) None
        (Some ''x.com'')) w0) = 5
   \<and> (\<exists>w5. after422 (always (reply 422 (Parsed (JObj [])))) None (JStr ''x.com'') 5 w0 = Some w5
          \<and> createRealAccount (always (reply 422 (Parsed (JObj [])))) None (Some ''x.com'') w0
             = (Inl CreationExhausted, w5))
   \<and> (\<exists>w1. after422 (script [reply 422 (Parsed (JObj [])), reply 500 (Parsed (JObj []))]) None
          (JStr ''x.com'') 1 w0 = Some w1)
   \<and> fst (createRealAccount (script [reply 422 (Parsed (JObj [])), reply 500 (Parsed (JObj []))])
        None (Some ''x.com'') w0) = Inl (CreationFailed 500)
   \<and> accountRequests (issued (createRealAccount
        (script [reply 422 (Parsed (JObj [])), reply 500 (Parsed (JObj []))]) None (Some ''x.com'')) w0) = 2"
proof -
  have random: "\<not> truthyStr None" by (simp add: truthyStr_def)
  have dom: "to_string (JStr ''x.com'') = Inr ''x.com''" by simp
  let ?E = "always (reply 422 (Parsed (JObj [])))"
  have all422: "\<forall>options w'. \<exists>r w''. smartFetch ?E accountsUrl options w' = (Inr r, w'') \<and> status r = 422"
    by (simp add: smartFetch_always)
  note E = random_mode_retry_budget [OF random, of ?E "Some ''x.com''" w0]
  from E [THEN conjunct2, THEN conjunct1, rule_format, of "JStr ''x.com''" w0 "''x.com''"]
    resolve_custom all422 dom
  have exhausted: "fst (createRealAccount ?E None (Some ''x.com'') w0) = Inl CreationExhausted
     \<and> accountRequests (issued (createRealAccount ?E None (Some ''x.com'')) w0) = 5"
    by simp
  obtain w5 where w5: "after422 ?E None (JStr ''x.com'') 5 w0 = Some w5"
    using after422_always by blast
  from E [THEN conjunct2, THEN conjunct2, THEN conjunct1, rule_format, of "JStr ''x.com''" w0 w5]
    resolve_custom w5
  have five: "createRealAccount ?E None (Some ''x.com'') w0 = (Inl CreationExhausted, w5)"
    by simp
  let ?S = "script [reply 422 (Parsed (JObj [])), reply 500 (Parsed (JObj []))]"
  let ?r1 = "\<lparr>status = 422, content = Parsed (JObj [])\<rparr>"
  let ?r2 = "\<lparr>status = 500, content = Parsed (JObj [])\<rparr>"
  have "\<exists>a p w'. attempt ?S False None (JStr ''x.com'') w0 = (Inr (a, p, ?r1), w')
          \<and> trace w' = trace w0 @ [Fetch accountsUrl (credentials a p)]"
    by (rule attempt_answered [where ds = "''x.com''"], rule smartFetch_script [where k = 0])
      (simp_all add: w0_def reply_def)
  then obtain a1 p1 w1 where
    first: "attempt ?S False None (JStr ''x.com'') w0 = (Inr (a1, p1, ?r1), w1)"
    and t1: "trace w1 = [Fetch accountsUrl (credentials a1 p1)]"
    by (auto simp add: w0_def)
  from first have one: "after422 ?S None (JStr ''x.com'') 1 w0 = Some w1"
    by simp
  have "\<exists>a p w'. attempt ?S False None (JStr ''x.com'') w1 = (Inr (a, p, ?r2), w')
          \<and> trace w' = trace w1 @ [Fetch accountsUrl (credentials a p)]"
    by (rule attempt_answered [where ds = "''x.com''"], rule smartFetch_script [where k = 1])
      (simp_all add: t1 reply_def)
  then obtain a2 p2 w2 where
    second: "attempt ?S False None (JStr ''x.com'') w1 = (Inr (a2, p2, ?r2), w2)"
    by blast
  have r: "\<not> ok ?r2" "status ?r2 \<noteq> 422" "text_of ?r2 = Inr ()"
    by (simp_all add: ok_def text_of_def)
  note S = random_mode_retry_budget [OF random, of ?S "Some ''x.com''" w0]
  from S [THEN conjunct2, THEN conjunct2, THEN conjunct2, rule_format,
      of "JStr ''x.com''" w0 1 w1 a2 p2 ?r2 w2] resolve_custom one second r
  have "createRealAccount ?S None (Some ''x.com'') w0 = (Inl (CreationFailed 500), w2)
      \<and> accountRequests (issued (createRealAccount ?S None (Some ''x.com'')) w0) = 2"
    by simp
  with exhausted five w5 one show ?thesis by simp
qed

text \<open>
  The claim as stated fails when the body of the failed response cannot be read: a
  creation request answered with status 500, which is neither a success nor a 422, makes
  the call fail with the error of reading the body, which does not carry the status.
\<close>

theorem random_mode_counterexample:
  "\<not> ok \<lparr>status = 500, content = Unreadable\<rparr>
   \<and> status \<lparr>status = 500, content = Unreadable\<rparr> \<noteq> 422
   \<and> fst (createRealAccount (always (reply 500 Unreadable)) None (Some ''x.com'') w0) = Inl BodyUnreadable
   \<and> fst (createRealAccount (always (reply 500 Unreadable)) None (Some ''x.com'') w0)
        \<noteq> Inl (CreationFailed 500)"
proof -
  let ?F = "always (reply 500 Unreadable)"
  obtain u w1 pw w2 where
    u: "(if False then (the None, w0) else randomString ?F 10 w0) = (u, w1)"
    and p: "randomString ?F 12 w1 = (pw, w2)"
    by (rule round_strings)
  let ?r = "\<lparr>status = 500, content = Unreadable\<rparr>"
  let ?w3 = "w2\<lparr>trace := trace w2 @ [Fetch accountsUrl (credentials (u @ ''@'' @ ''x.com'') pw)]\<rparr>"
  have sf: "smartFetch ?F accountsUrl (credentials (u @ ''@'' @ ''x.com'') pw) w2 = (Inr ?r, ?w3)"
    by (simp add: smartFetch_always)
  have loop: "createLoop ?F False None (JStr ''x.com'') 5 0 [] [] w0 = (Inl BodyUnreadable, ?w3)"
    using createLoop_step [OF _ u p _ sf, where n = 5 and i = 0 and d = "JStr ''x.com''"
        and a = "[]" and p = "[]"]
    by (simp add: ok_def text_of_def)
  have "provision ?F None (JStr ''x.com'') w0 = (Inl BodyUnreadable, ?w3)"
    by (rule provision_propagates) (simp add: truthyStr_def loop)
  then have "createRealAccount ?F None (Some ''x.com'') w0 = (Inl BodyUnreadable, ?w3)"
    by (simp add: createRealAccount_resolved [OF resolve_custom])
  then show ?thesis
    by (simp add: ok_def)
qed

subsection \<open>Custom usernames\<close>

text \<open>
  C2, as amended. In custom mode a call issues at most one account-creation request, and
  exactly one once the domain is resolved to a value that renders as a string. When that
  request is answered 422 the call fails with the username-unavailable error in the world
  that request left: no second attempt is made.
\<close>

theorem custom_mode_single_attempt:
  assumes "truthyStr cu"
  shows "accountRequests (issued (createRealAccount E cu cd) w) \<le> 1
     \<and> (\<forall>d w1 ds. resolveDomain E cd w = (Inr d, w1) \<and> to_string d = Inr ds
          \<longrightarrow> accountRequests (issued (createRealAccount E cu cd) w) = 1)
     \<and> (\<forall>d w1 ds pw w2 r w3.
            resolveDomain E cd w = (Inr d, w1) \<and> to_string d = Inr ds
            \<and> randomString E 12 w1 = (pw, w2)
            \<and> smartFetch E accountsUrl (credentials (the cu @ ''@'' @ ds) pw) w2 = (Inr r, w3)
            \<and> status r = 422
          \<longrightarrow> createRealAccount E cu cd w = (Inl UsernameUnavailable, w3))"
proof (intro conjI allI impI)
  have "callBudget (if truthyStr cu then 1 else 5) (issued (createRealAccount E cu cd) w)"
    by (rule emits_issued [OF emits_createRealAccount])
  with assms show "accountRequests (issued (createRealAccount E cu cd) w) \<le> 1"
    by (simp add: callBudget_def)
next
  fix d w1 ds
  assume h: "resolveDomain E cd w = (Inr d, w1) \<and> to_string d = Inr ds"
  obtain res w' where run: "provision E cu d w1 = (res, w')" by (cases "provision E cu d w1")
  from h assms have "emits (provision E cu d) (\<lambda>evs. accountRequests evs = 1)"
    by (intro provision_custom_once [where ds = ds]) simp_all
  from emits_run [OF this run] obtain evs where "trace w' = trace w1 @ evs" "accountRequests evs = 1"
    by auto
  with h run show "accountRequests (issued (createRealAccount E cu cd) w) = 1"
    by (simp add: resolved_requests [where evs = evs])
next
  fix d w1 ds pw w2 r w3
  assume h: "resolveDomain E cd w = (Inr d, w1) \<and> to_string d = Inr ds
            \<and> randomString E 12 w1 = (pw, w2)
            \<and> smartFetch E accountsUrl (credentials (the cu @ ''@'' @ ds) pw) w2 = (Inr r, w3)
            \<and> status r = 422"
  then have "createLoop E True cu d 1 0 [] [] w1 =
     (if ok r then (Inr (True, the cu @ ''@'' @ ds, pw), w3)
      else if status r = 422 then
        (if True then (Inl UsernameUnavailable, w3)
         else createLoop E True cu d 1 (Suc 0) (the cu @ ''@'' @ ds) pw w3)
      else (case text_of r of
              Inl e \<Rightarrow> (Inl e, w3)
            | Inr errText \<Rightarrow> (Inl (CreationFailed (status r)), w3)))"
    by (intro createLoop_step [where ?w1.0 = w1 and ?w2.0 = w2]) simp_all
  with h have "createLoop E True cu d 1 0 [] [] w1 = (Inl UsernameUnavailable, w3)"
    by (simp add: not_ok_422)
  with assms have "provision E cu d w1 = (Inl UsernameUnavailable, w3)"
    by (intro provision_propagates) simp
  with h show "createRealAccount E cu cd w = (Inl UsernameUnavailable, w3)"
    by (simp add: createRealAccount_resolved)
qed

text \<open>The name \<^verbatim>\<open>alice\<close> on a supplied domain, against a network that answers 422.\<close>

theorem custom_mode_single_attempt_witness:
  "fst (createRealAccount (always (reply 422 (Parsed (JObj [])))) (Some ''alice'') (Some ''x.com'') w0)
     = Inl UsernameUnavailable
   \<and> accountRequests (issued (createRealAccount (always (reply 422 (Parsed (JObj []))))
        (Some ''alice'') (Some ''x.com'')) w0) = 1"
proof -
  let ?E = "always (reply 422 (Parsed (JObj [])))"
  have custom: "truthyStr (Some ''alice'')" by (simp add: truthyStr_def)
  have dom: "to_string (JStr ''x.com'') = Inr ''x.com''" by simp
  obtain pw w2 where p: "randomString ?E 12 w0 = (pw, w2)" by (cases "randomString ?E 12 w0")
  let ?r = "\<lparr>status = 422, content = Parsed (JObj [])\<rparr>"
  let ?w3 = "w2\<lparr>trace := trace w2 @ [Fetch accountsUrl (credentials (''alice'' @ ''@'' @ ''x.com'') pw)]\<rparr>"
  have sf: "smartFetch ?E accountsUrl (credentials (the (Some ''alice'') @ ''@'' @ ''x.com'') pw) w2 = (Inr ?r, ?w3)"
    by (simp add: smartFetch_always)
  note T = custom_mode_single_attempt [OF custom, of ?E "Some ''x.com''" w0]
  from T [THEN conjunct2, THEN conjunct1, rule_format, of "JStr ''x.com''" w0 "''x.com''"]
    resolve_custom dom
  have one: "accountRequests (issued (createRealAccount ?E (Some ''alice'') (Some ''x.com'')) w0) = 1"
    by simp
  from T [THEN conjunct2, THEN conjunct2, rule_format,
      of "JStr ''x.com''" w0 "''x.com''" pw w2 ?r ?w3] resolve_custom dom p sf
  have "createRealAccount ?E (Some ''alice'') (Some ''x.com'') w0 = (Inl UsernameUnavailable, ?w3)"
    by simp
  with one show ?thesis by simp
qed

text \<open>
  The claim as stated fails when no domain can be resolved: with a custom username, no
  custom domain and a network that is down, the call fails with the no-domains error and
  has issued no account-creation request.
\<close>

theorem no_domain_counterexample:
  "truthyStr (Some ''alice'')
   \<and> fst (createRealAccount (always Rejects) (Some ''alice'') None w0) = Inl NoDomainsAvailable
   \<and> accountRequests (issued (createRealAccount (always Rejects) (Some ''alice'') None) w0) = 0"
  using no_domains [of "always Rejects" "Some ''alice''" w0] getAvailableDomains_offline
  by (simp add: truthyStr_def)

subsection \<open>The session\<close>

text \<open>
  C6. In every session that \<open>createRealAccount\<close> returns, \<^verbatim>\<open>expiresAt\<close> is \<^verbatim>\<open>null\<close> exactly
  when a custom username was supplied (a non-empty string, line 99); without one it is
  the creation time plus ten minutes; and \<^verbatim>\<open>isPremium\<close> tells whether a custom username
  was supplied.
\<close>

theorem expiry_policy:
  assumes "createRealAccount E cu cd w = (Inr s, w')"
  shows "(expiresAt s = None \<longleftrightarrow> truthyStr cu)
       \<and> (\<not> truthyStr cu \<longrightarrow> expiresAt s = Some (createdAt s + 10 * 60 * 1000))
       \<and> isPremium s = truthyStr cu"
proof -
  from createRealAccount_session [OF assms] obtain a p w2
    where "login E (truthyStr cu) a p w2 = (Inr s, w')" by blast
  from login_session [OF this] show ?thesis by auto
qed

text \<open>
  A network that accepts the account, hands out a token and answers the account-info
  request with status 200 and an identifier.
\<close>

theorem expiry_policy_witness:
  "\<exists>s w'. createRealAccount (threeReplies 200 (Parsed (JObj [(''id'', JStr ''42'')]))) None
             (Some ''x.com'') w0 = (Inr s, w')
        \<and> expiresAt s = Some (createdAt s + 10 * 60 * 1000) \<and> \<not> isPremium s"
proof -
  let ?E = "threeReplies 200 (Parsed (JObj [(''id'', JStr ''42'')]))"
  from threeReplies_run [of 200 "Parsed (JObj [(''id'', JStr ''42'')])" None]
  obtain a p w2 w3 w4 where
    r: "resolveDomain ?E (Some ''x.com'') w0 = (Inr (JStr ''x.com''), w0)"
    and l: "createLoop ?E (truthyStr None) None (JStr ''x.com'') (if truthyStr None then 1 else 5) 0 [] [] w0
           = (Inr (True, a, p), w2)"
    and t: "smartFetch ?E (API_BASE @ ''/token'') (credentials a p) w2 =
         (Inr \<lparr>status = 200, content = Parsed (JObj [(''token'', JStr ''t0k'')])\<rparr>, w3)"
    and m: "smartFetch ?E (API_BASE @ ''/me'') (bearer ''t0k'') w3 =
         (Inr \<lparr>status = 200, content = Parsed (JObj [(''id'', JStr ''42'')])\<rparr>, w4)"
    by auto
  have "\<exists>s. login ?E (truthyStr None) a p w2 = (Inr s, w4\<lparr>ticks := Suc (ticks w4)\<rparr>)"
    by (simp add: login_run [OF t token_reply m] getp_def)
  then obtain s where "createRealAccount ?E None (Some ''x.com'') w0 = (Inr s, w4\<lparr>ticks := Suc (ticks w4)\<rparr>)"
    using createRealAccount_resolved [OF r] provision_created [OF l] by auto
  from expiry_policy [OF this] this show ?thesis
    by (auto simp add: truthyStr_def)
qed

text \<open>
  C10, as amended. Once the account is created and the token obtained, the status of the
  account-info response plays no part: whenever that response has a body that parses to
  a JSON value other than \<^verbatim>\<open>null\<close>, the call returns a session whose \<^verbatim>\<open>accountId\<close> is the
  \<^verbatim>\<open>id\<close> property of that value (\<^verbatim>\<open>undefined\<close> when there is none). The call fails, with
  the error the platform raised, when the body cannot be read or does not parse, and also
  when it parses to \<^verbatim>\<open>null\<close> (reading \<^verbatim>\<open>id\<close> then throws).
\<close>

theorem me_status_unchecked:
  assumes "resolveDomain E cd w = (Inr d, w1)"
    and "createLoop E (truthyStr cu) cu d (if truthyStr cu then 1 else 5) 0 [] [] w1
           = (Inr (True, a, p), w2)"
    and "smartFetch E (API_BASE @ ''/token'') (credentials a p) w2 = (Inr tokenRes, w3)"
    and "ok tokenRes" and "json tokenRes = Inr td" and "getp td ''token'' = Inr tok"
    and "to_string tok = Inr t"
    and "smartFetch E (API_BASE @ ''/me'') (bearer t) w3 = (Inr meRes, w4)"
  shows "createRealAccount E cu cd w =
     (case content meRes of
        Unreadable \<Rightarrow> (Inl BodyUnreadable, w4)
      | Malformed \<Rightarrow> (Inl SyntaxError, w4)
      | Parsed meData \<Rightarrow>
          if meData = JNull \<or> meData = JUndefined
          then (Inl TypeError, w4\<lparr>ticks := Suc (ticks w4)\<rparr>)
          else
            (Inr \<lparr>emailAddress = a, createdAt = clock E (ticks w4),
                  expiresAt = (if truthyStr cu then None
                               else Some (clock E (ticks w4) + 10 * 60 * 1000)),
                  isPremium = truthyStr cu, token = tok,
                  accountId = (case meData of
                                 JObj kvs \<Rightarrow> (case map_of kvs ''id'' of
                                                None \<Rightarrow> JUndefined | Some x \<Rightarrow> x)
                               | _ \<Rightarrow> JUndefined),
                  password = p, isMock = False\<rparr>,
             w4\<lparr>ticks := Suc (ticks w4)\<rparr>))"
proof -
  have "createRealAccount E cu cd w = login E (truthyStr cu) a p w2"
    using createRealAccount_resolved [OF assms(1)] provision_created [OF assms(2)] by simp
  also have "\<dots> =
     (case content meRes of
        Unreadable \<Rightarrow> (Inl BodyUnreadable, w4)
      | Malformed \<Rightarrow> (Inl SyntaxError, w4)
      | Parsed meData \<Rightarrow>
          (case getp meData ''id'' of
             Inl e \<Rightarrow> (Inl e, w4\<lparr>ticks := Suc (ticks w4)\<rparr>)
           | Inr ident \<Rightarrow>
               (Inr \<lparr>emailAddress = a, createdAt = clock E (ticks w4),
                     expiresAt = (if truthyStr cu then None
                                  else Some (clock E (ticks w4) + 10 * 60 * 1000)),
                     isPremium = truthyStr cu, token = tok, accountId = ident, password = p,
                     isMock = False\<rparr>,
                w4\<lparr>ticks := Suc (ticks w4)\<rparr>)))"
    by (rule login_run [OF assms(3-8)])
  finally show ?thesis
    by (auto simp add: getp_defined split: content.splits) (simp_all add: getp_def)
qed

text \<open>
  The account-info request is answered with status 500 and the body \<^verbatim>\<open>{}\<close>: the call
  returns a session, whose \<^verbatim>\<open>accountId\<close> is \<^verbatim>\<open>undefined\<close>.
\<close>

theorem me_status_unchecked_witness:
  "\<exists>s w'. createRealAccount (threeReplies 500 (Parsed (JObj []))) None (Some ''x.com'') w0 = (Inr s, w')
        \<and> accountId s = JUndefined \<and> token s = JStr ''t0k''"
proof -
  let ?E = "threeReplies 500 (Parsed (JObj []))"
  from threeReplies_run [of 500 "Parsed (JObj [])" None]
  obtain a p w2 w3 w4 where
    r: "resolveDomain ?E (Some ''x.com'') w0 = (Inr (JStr ''x.com''), w0)"
    and l: "createLoop ?E (truthyStr None) None (JStr ''x.com'') (if truthyStr None then 1 else 5) 0 [] [] w0
           = (Inr (True, a, p), w2)"
    and t: "smartFetch ?E (API_BASE @ ''/token'') (credentials a p) w2 =
         (Inr \<lparr>status = 200, content = Parsed (JObj [(''token'', JStr ''t0k'')])\<rparr>, w3)"
    and m: "smartFetch ?E (API_BASE @ ''/me'') (bearer ''t0k'') w3 =
         (Inr \<lparr>status = 500, content = Parsed (JObj [])\<rparr>, w4)"
    by auto
  from me_status_unchecked [OF r l t token_reply m] show ?thesis by simp
qed

text \<open>
  The claim as stated fails when the body of the account-info response is the JSON text
  \<^verbatim>\<open>null\<close>: it parses, and the call fails with a \<^verbatim>\<open>TypeError\<close>.
\<close>

theorem me_null_body_counterexample:
  "json \<lparr>status = 500, content = Parsed JNull\<rparr> = Inr JNull
   \<and> fst (createRealAccount (threeReplies 500 (Parsed JNull)) None (Some ''x.com'') w0) = Inl TypeError"
proof -
  let ?E = "threeReplies 500 (Parsed JNull)"
  from threeReplies_run [of 500 "Parsed JNull" None]
  obtain a p w2 w3 w4 where
    r: "resolveDomain ?E (Some ''x.com'') w0 = (Inr (JStr ''x.com''), w0)"
    and l: "createLoop ?E (truthyStr None) None (JStr ''x.com'') (if truthyStr None then 1 else 5) 0 [] [] w0
           = (Inr (True, a, p), w2)"
    and t: "smartFetch ?E (API_BASE @ ''/token'') (credentials a p) w2 =
         (Inr \<lparr>status = 200, content = Parsed (JObj [(''token'', JStr ''t0k'')])\<rparr>, w3)"
    and m: "smartFetch ?E (API_BASE @ ''/me'') (bearer ''t0k'') w3 =
         (Inr \<lparr>status = 500, content = Parsed JNull\<rparr>, w4)"
    by auto
  have "createRealAccount ?E None (Some ''x.com'') w0 = login ?E (truthyStr None) a p w2"
    using createRealAccount_resolved [OF r] provision_created [OF l] by simp
  then show ?thesis
    by (simp add: login_run [OF t token_reply m] getp_def json_def)
qed

section \<open>Message details and deletion\<close>

lemma intersperse_empty: "intersperse [] ss = concat ss"
  by (induction "[] :: string" ss rule: intersperse.induct) simp_all

lemma sequenceE_strings:
  "sequenceE (map ((\<lambda>x. if x = JNull \<or> x = JUndefined then Inr [] else to_string x) \<circ> JStr) ss)
     = Inr ss"
  by (induction ss) simp_all

lemma join_strings: "join (map JStr ss) [] = Inr (concat ss)"
  by (simp add: join_def sequenceE_strings intersperse_empty)

lemma fetchMessageDetails_run:
  "fetchMessageDetails E tok messageId w =
     (case smartFetch E (API_BASE @ ''/messages/'' @ messageId) (bearer tok) w of
        (Inl e, w1) \<Rightarrow> (Inr None, w1)
      | (Inr res, w1) \<Rightarrow>
          (case json res of
             Inl e \<Rightarrow> (Inr None, w1)
           | Inr data \<Rightarrow>
               (case bodyContent data of
                  Inl e \<Rightarrow> (Inr None, w1)
                | Inr b \<Rightarrow> (Inr (Some \<lparr>body = b, hasFullDetails = True\<rparr>), w1))))"
  by (simp add: fetchMessageDetails_def tryCatch_def bindE_def liftE_def returnE_def
      split: prod.splits sum.splits)

lemma bodyContent_cases:
  "getp data ''html'' = Inr (JArr (x # xs)) \<Longrightarrow> join (x # xs) [] = Inr s \<Longrightarrow> bodyContent data = Inr (JStr s)"
  "getp data ''html'' = Inr (JStr (c # cs)) \<Longrightarrow> bodyContent data = Inr (JStr (c # cs))"
  "getp data ''html'' = Inr h \<Longrightarrow> \<not> usableHtml h \<Longrightarrow> getp data ''text'' = Inr t \<Longrightarrow>
     bodyContent data = Inr (if truthy t then t else JStr ''No content'')"
  "getp data ''html'' = Inl e \<Longrightarrow> bodyContent data = Inl e"
  by (auto simp add: bodyContent_def usableHtml_def split: jsval.splits list.splits)

text \<open>
  What \<open>fetchMessageDetails\<close> does for every response. It never throws. Its result is
  \<^verbatim>\<open>null\<close> exactly when an exception was caught on the way: both attempts of the request,
  reading or parsing the body, or resolving the content (the parsed value is \<^verbatim>\<open>null\<close>, or a
  fragment cannot be rendered). Otherwise it is a detail with \<^verbatim>\<open>hasFullDetails\<close> set whose body is: the fragments of a
  non-empty \<^verbatim>\<open>html\<close> array joined without separator (for string fragments, their
  concatenation); else a non-empty \<^verbatim>\<open>html\<close> string; else the \<^verbatim>\<open>text\<close> field when it is
  truthy; else the sentinel \<^verbatim>\<open>No content\<close>.
\<close>

lemma fetchMessageDetails_body:
  "(\<exists>r w'. fetchMessageDetails E tok messageId w = (Inr r, w')
      \<and> (case smartFetch E (API_BASE @ ''/messages/'' @ messageId) (bearer tok) w of
            (Inl e, w1) \<Rightarrow> r = None
          | (Inr res, w1) \<Rightarrow>
              (case json res of
                 Inl e \<Rightarrow> r = None
               | Inr data \<Rightarrow>
                   (case bodyContent data of
                      Inl e \<Rightarrow> r = None
                    | Inr b \<Rightarrow> r = Some \<lparr>body = b, hasFullDetails = True\<rparr>))))
   \<and> (\<forall>data x xs s. getp data ''html'' = Inr (JArr (x # xs)) \<and> join (x # xs) [] = Inr s
          \<longrightarrow> bodyContent data = Inr (JStr s))
   \<and> (\<forall>ss. join (map JStr ss) [] = Inr (concat ss))
   \<and> (\<forall>data c cs. getp data ''html'' = Inr (JStr (c # cs))
          \<longrightarrow> bodyContent data = Inr (JStr (c # cs)))
   \<and> (\<forall>data h t. getp data ''html'' = Inr h \<and> \<not> usableHtml h \<and> getp data ''text'' = Inr t
          \<longrightarrow> bodyContent data = Inr (if truthy t then t else JStr ''No content''))
   \<and> (\<forall>data. data = JNull \<or> data = JUndefined \<longrightarrow> bodyContent data = Inl TypeError)"
proof (intro conjI allI impI)
  show "\<exists>r w'. fetchMessageDetails E tok messageId w = (Inr r, w')
      \<and> (case smartFetch E (API_BASE @ ''/messages/'' @ messageId) (bearer tok) w of
            (Inl e, w1) \<Rightarrow> r = None
          | (Inr res, w1) \<Rightarrow>
              (case json res of
                 Inl e \<Rightarrow> r = None
               | Inr data \<Rightarrow>
                   (case bodyContent data of
                      Inl e \<Rightarrow> r = None
                    | Inr b \<Rightarrow> r = Some \<lparr>body = b, hasFullDetails = True\<rparr>)))"
    by (simp add: fetchMessageDetails_run split: prod.splits sum.splits)
next
  fix data x xs s
  assume "getp data ''html'' = Inr (JArr (x # xs)) \<and> join (x # xs) [] = Inr s"
  then show "bodyContent data = Inr (JStr s)" by (simp add: bodyContent_cases)
next
  fix ss show "join (map JStr ss) [] = Inr (concat ss)" by (rule join_strings)
next
  fix data c cs
  assume "getp data ''html'' = Inr (JStr (c # cs))"
  then show "bodyContent data = Inr (JStr (c # cs))" by (simp add: bodyContent_cases)
next
  fix data h t
  assume "getp data ''html'' = Inr h \<and> \<not> usableHtml h \<and> getp data ''text'' = Inr t"
  then show "bodyContent data = Inr (if truthy t then t else JStr ''No content'')"
    using bodyContent_cases(3) by blast
next
  fix data :: jsval
  assume "data = JNull \<or> data = JUndefined"
  then show "bodyContent data = Inl TypeError"
    by (auto simp add: bodyContent_def getp_def)
qed

text \<open>
  A message with two HTML fragments and a text: the body is the fragments joined. When
  the network is down the result is \<^verbatim>\<open>null\<close>.
\<close>

lemma fetchMessageDetails_example:
  "fst (fetchMessageDetails (always (reply 200 mail)) ''t0k'' ''m1'' w0)
     = Inr (Some \<lparr>body = JStr ''<p>hi'', hasFullDetails = True\<rparr>)
   \<and> fst (fetchMessageDetails (always Rejects) ''t0k'' ''m1'' w0) = Inr None"
proof -
  let ?E = "always (reply 200 mail)"
  let ?data = "JObj [(''html'', JArr [JStr ''<p>'', JStr ''hi'']), (''text'', JStr ''hi'')]"
  note T = fetchMessageDetails_body [of ?E "''t0k''" "''m1''" w0]
  have html: "getp ?data ''html'' = Inr (JArr (JStr ''<p>'' # [JStr ''hi'']))"
    by (simp add: getp_def)
  from T [THEN conjunct2, THEN conjunct2, THEN conjunct1, rule_format, of "[''<p>'', ''hi'']"]
  have j: "join (JStr ''<p>'' # [JStr ''hi'']) [] = Inr ''<p>hi''" by simp
  from T [THEN conjunct2, THEN conjunct1, rule_format, of ?data "JStr ''<p>''" "[JStr ''hi'']" "''<p>hi''"]
    html j
  have b: "bodyContent ?data = Inr (JStr ''<p>hi'')" by simp
  from T [THEN conjunct1] b
  have 1: "fst (fetchMessageDetails ?E ''t0k'' ''m1'' w0)
     = Inr (Some \<lparr>body = JStr ''<p>hi'', hasFullDetails = True\<rparr>)"
    by (auto simp add: smartFetch_always json_def mail_def)
  obtain w1 where down:
    "smartFetch (always Rejects) (API_BASE @ ''/messages/'' @ ''m1'') (bearer ''t0k'') w0 = (Inl FetchFailed, w1)"
    using smartFetch_run [of "always Rejects" "API_BASE @ ''/messages/'' @ ''m1''" "bearer ''t0k''" w0]
    by (simp add: always_def failedDirect_def settle_def API_BASE_def)
  from fetchMessageDetails_body [of "always Rejects" "''t0k''" "''m1''" w0, THEN conjunct1] down
  have 2: "fst (fetchMessageDetails (always Rejects) ''t0k'' ''m1'' w0) = Inr None"
    by auto
  from 1 2 show ?thesis by simp
qed

text \<open>
  C8. \<open>fetchMessageDetails\<close> never throws and its body follows the stated precedence, but
  it does not return \<^verbatim>\<open>null\<close> on every failure: it never looks at the status of the
  response. When the request is answered 404 with a JSON body, which is not a success, the
  result is a detail with the sentinel body and \<^verbatim>\<open>hasFullDetails\<close> set, not \<^verbatim>\<open>null\<close>.
\<close>

theorem fetchMessageDetails_sentinel_on_404:
  "(\<forall>E tok messageId w.
      fetchMessageDetails E tok messageId w =
        (case smartFetch E (API_BASE @ ''/messages/'' @ messageId) (bearer tok) w of
           (Inl e, w1) \<Rightarrow> (Inr None, w1)
         | (Inr res, w1) \<Rightarrow>
             (case json res of
                Inl e \<Rightarrow> (Inr None, w1)
              | Inr data \<Rightarrow>
                  (case bodyContent data of
                     Inl e \<Rightarrow> (Inr None, w1)
                   | Inr b \<Rightarrow> (Inr (Some \<lparr>body = b, hasFullDetails = True\<rparr>), w1)))))
   \<and> \<not> ok \<lparr>status = 404, content = notFound\<rparr>
   \<and> fst (fetchMessageDetails (always (reply 404 notFound)) ''t0k'' ''m1'' w0)
       = Inr (Some \<lparr>body = JStr ''No content'', hasFullDetails = True\<rparr>)"
  by (simp add: fetchMessageDetails_run smartFetch_always ok_def json_def notFound_def
      bodyContent_def getp_def truthy_def)

lemma deleteMessage_run:
  "deleteMessage E tok messageId w =
     (case smartFetch E (API_BASE @ ''/messages/'' @ messageId) (deleteOptions tok) w of
        (Inl e, w1) \<Rightarrow> (Inr False, w1)
      | (Inr res, w1) \<Rightarrow> (Inr True, w1))"
  by (simp add: deleteMessage_def tryCatch_def bindE_def returnE_def split: prod.splits sum.splits)

text \<open>
  C9. \<open>deleteMessage\<close> never throws, and it answers \<^verbatim>\<open>false\<close> when both attempts of the
  request fail. But it answers \<^verbatim>\<open>true\<close> for every response, whatever its status: when the
  request is answered 404, which is not a success, the result is \<^verbatim>\<open>true\<close>.
\<close>

theorem deleteMessage_true_on_404:
  "(\<forall>E tok messageId w.
      deleteMessage E tok messageId w =
        (case smartFetch E (API_BASE @ ''/messages/'' @ messageId) (deleteOptions tok) w of
           (Inl e, w1) \<Rightarrow> (Inr False, w1)
         | (Inr res, w1) \<Rightarrow> (Inr True, w1)))
   \<and> \<not> ok \<lparr>status = 404, content = Parsed (JObj [])\<rparr>
   \<and> fst (deleteMessage (always (reply 404 (Parsed (JObj [])))) ''t0k'' ''m1'' w0) = Inr True"
  by (simp add: deleteMessage_run smartFetch_always ok_def)

end
